theory Spec2Isabelle
  imports Complex_Main "HOL-Library.Char_ord" "HOL-Library.List_Lexorder" "HOL-Library.Sublist"
    "HOL-Library.Code_Target_Nat"
begin

section \<open>LspController: the controller of the Amazon Q language server\<close>

text \<open>
  The development follows \<^verbatim>\<open>packages/core/src/amazonq/lsp/lspController.ts\<close>.
  JavaScript strings are modelled as HOL strings, a character standing for one code unit.
  A value that an \<^verbatim>\<open>await\<close> may throw is either an \<^verbatim>\<open>Error\<close> object, with its name and
  its message, or any other value, kept as the text that a template literal makes of it.
\<close>

datatype thrown = Error (name: string) (message: string) | NonError string

text \<open>
  A collaborator that gives the same answer to every request; the concrete instances of
  the theorems below use it for the methods of \<^verbatim>\<open>LspClient\<close>.
\<close>

definition always :: "'b \<Rightarrow> 'a \<Rightarrow> 'b" where
  "always r request = r"

subsection \<open>Chunks and the records that query returns\<close>

text \<open>
  The interface \<^verbatim>\<open>Chunk\<close>; an optional field is an option. The field \<^verbatim>\<open>context\<close> is
  called \<open>chunk_context\<close> here, and the field \<^verbatim>\<open>text\<close> of \<^verbatim>\<open>RelevantTextDocument\<close> is called
  \<open>doc_text\<close>, since both words are reserved.
\<close>

record chunk =
  filePath :: string
  content :: string
  chunk_context :: "string option"
  relativePath :: "string option"
  programmingLanguage :: "string option"

record programming_language =
  languageName :: string

record relevant_text_document =
  doc_text :: string
  relativeFilePath :: string
  doc_programmingLanguage :: "programming_language option"

text \<open>
  The condition \<^verbatim>\<open>x ? a : b\<close> on an optional string tests truthiness: \<^verbatim>\<open>undefined\<close> and the
  empty string are both falsy.
\<close>

definition truthy :: "string option \<Rightarrow> bool" where
  "truthy x = (case x of None \<Rightarrow> False | Some s \<Rightarrow> s \<noteq> [])"

text \<open>
  \<^verbatim>\<open>path.basename\<close> of Node.js, in its POSIX form: the separators at the end of the path are
  dropped, and the result is what follows the last separator that remains.
\<close>

definition basename :: "string \<Rightarrow> string" where
  "basename p =
     rev (takeWhile (\<lambda>c. c \<noteq> CHR ''/'') (dropWhile (\<lambda>c. c = CHR ''/'') (rev p)))"

text \<open>The callback of \<^verbatim>\<open>chunks?.forEach\<close> in \<^verbatim>\<open>query\<close>: the record pushed for one chunk.\<close>

definition query_chunk :: "chunk \<Rightarrow> relevant_text_document" where
  "query_chunk c =
     (let text = (if truthy (chunk_context c) then the (chunk_context c) else content c)
      in if truthy (programmingLanguage c) \<and> programmingLanguage c \<noteq> Some ''unknown''
         then \<lparr> doc_text = text,
                relativeFilePath =
                  (if truthy (relativePath c) then the (relativePath c)
                   else basename (filePath c)),
                doc_programmingLanguage =
                  Some \<lparr> languageName = the (programmingLanguage c) \<rparr> \<rparr>
         else \<lparr> doc_text = text,
                relativeFilePath =
                  (if truthy (relativePath c) then the (relativePath c)
                   else basename (filePath c)),
                doc_programmingLanguage = None \<rparr>)"

text \<open>
  \<^verbatim>\<open>query\<close>. The method \<^verbatim>\<open>LspClient.instance.queryVectorIndex\<close> is a parameter; what
  awaiting it yields is a thrown value (the promise rejects, and so does \<^verbatim>\<open>query\<close>, which
  has no handler), \<^verbatim>\<open>undefined\<close>, or the chunks.
\<close>

definition query ::
  "(string \<Rightarrow> thrown + chunk list option) \<Rightarrow> string \<Rightarrow> thrown + relevant_text_document list"
where
  "query queryVectorIndex s =
     (case queryVectorIndex s of
        Inl e \<Rightarrow> Inl e
      | Inr None \<Rightarrow> Inr []
      | Inr (Some chunks) \<Rightarrow> Inr (map query_chunk chunks))"

subsection \<open>The world that buildIndex acts on\<close>

text \<open>The interface \<^verbatim>\<open>BuildIndexConfig\<close>.\<close>

record build_index_config =
  startUrl :: "string option"
  maxIndexSize :: nat
  isVectorIndexEnabled :: bool

text \<open>
  An element of what \<^verbatim>\<open>collectFilesForIndex\<close> resolves to (\<open>fsPath\<close> is
  \<^verbatim>\<open>fileUri.fsPath\<close>), and what \<^verbatim>\<open>getLspServerUsage\<close> resolves to.
\<close>

record index_file =
  fsPath :: string
  fileSizeBytes :: nat

record usage =
  memoryUsage :: nat
  cpuUsage :: real

text \<open>The argument of \<^verbatim>\<open>telemetry.amazonq_indexWorkspace.emit\<close>; a key left out is \<open>None\<close>.\<close>

datatype build_result = Succeeded | Failed

record index_event =
  duration :: real
  result :: build_result
  amazonqIndexFileCount :: nat
  amazonqIndexMemoryUsageInMB :: "real option"
  amazonqIndexCpuUsagePercentage :: "real option"
  amazonqIndexFileSizeInMB :: real
  credentialStartUrl :: "string option"
  reason :: "string option"
  reasonDesc :: "string option"

text \<open>
  What the controller does to its surroundings, in the order in which it does it: lines
  written to the logger, telemetry events, and the requests made of
  \<^verbatim>\<open>collectFilesForIndex\<close> and of \<^verbatim>\<open>LspClient.instance\<close>, each with its arguments. Writing
  a log line and emitting an event are taken not to throw.
\<close>

datatype level = LogInfo | LogDebug | LogWarn | LogError

datatype effect =
    Log level string
  | Emit index_event
  | CollectFilesForIndex "string list" "string list" bool nat
  | LspBuildIndex "string list" string string
  | GetLspServerUsage
  | GetRepoMapJSON

text \<open>
  The state: the private field \<^verbatim>\<open>_isIndexingInProgress\<close> of the controller, which the method
  \<^verbatim>\<open>isIndexingInProgress()\<close> returns, and the effects so far.
\<close>

record world =
  isIndexingInProgress :: bool
  trace :: "effect list"

definition perform :: "effect \<Rightarrow> world \<Rightarrow> world" where
  "perform e w = w\<lparr> trace := trace w @ [e] \<rparr>"

text \<open>
  Template literals: a number is written in decimal, an array of strings as its elements
  with commas between them.
\<close>

fun string_of_nat :: "nat \<Rightarrow> string" where
  "string_of_nat n =
     (if n < 10 then [''0123456789'' ! n]
      else string_of_nat (n div 10) @ [''0123456789'' ! (n mod 10)])"

declare string_of_nat.simps [simp del]

fun string_of_array :: "string list \<Rightarrow> string" where
  "string_of_array [] = []"
| "string_of_array [x] = x"
| "string_of_array (x # y # ys) = x @ '','' @ string_of_array (y # ys)"

subsection \<open>buildIndex, between its awaits\<close>

text \<open>
  \<^verbatim>\<open>buildIndex\<close> is an async function: it runs until an \<^verbatim>\<open>await\<close>, is suspended there, and is
  resumed with what the awaited promise yields. A call of it in flight is a task: the
  \<^verbatim>\<open>await\<close> at which it is suspended, with the local variables that the rest of the function
  reads, or the state in which its own promise has settled.
\<close>

datatype outcome = Resolved | Rejected thrown

datatype task =
    AwaitCollect real build_index_config "string list" string
  | AwaitBuild real build_index_config "index_file list" nat
  | AwaitUsage real build_index_config "index_file list" nat
  | AwaitRepoMap
  | Settled outcome

text \<open>
  The \<^verbatim>\<open>finally\<close> block up to its \<^verbatim>\<open>await\<close>, and the \<^verbatim>\<open>catch\<close> block; \<open>now\<close> is what
  \<^verbatim>\<open>performance.now()\<close> returns when it is read.
\<close>

definition finally_block :: "world \<Rightarrow> task \<times> world" where
  "finally_block w =
     (AwaitRepoMap, perform GetRepoMapJSON (w\<lparr> isIndexingInProgress := False \<rparr>))"

definition catch_block :: "real \<Rightarrow> real \<Rightarrow> thrown \<Rightarrow> world \<Rightarrow> world" where
  "catch_block now start error w =
     perform (Emit \<lparr> duration = now - start, result = Failed,
                    amazonqIndexFileCount = 0,
                    amazonqIndexMemoryUsageInMB = None,
                    amazonqIndexCpuUsagePercentage = None,
                    amazonqIndexFileSizeInMB = 0,
                    credentialStartUrl = None,
                    reason = Some (case error of Error n m \<Rightarrow> n | NonError s \<Rightarrow> ''Unknown''),
                    reasonDesc = Some (''Error when building index. '' @
                      (case error of Error n m \<Rightarrow> m | NonError s \<Rightarrow> s)) \<rparr>)
       (perform (Log LogError ''LspController: Failed to build index of project'') w)"

text \<open>
  From the call to the first \<^verbatim>\<open>await\<close> (lines 107 to 123). The workspace folders are given by
  their \<^verbatim>\<open>uri.fsPath\<close>; \<open>None\<close> is \<^verbatim>\<open>undefined\<close>. \<^verbatim>\<open>Array.prototype.sort\<close> without a
  comparator orders strings by their code units.
\<close>

definition buildIndex_begin ::
  "real \<Rightarrow> build_index_config \<Rightarrow> string list option \<Rightarrow> world \<Rightarrow> task \<times> world"
where
  "buildIndex_begin now buildIndexConfig workspaceFolders w =
     (let w1 = perform (Log LogInfo ''LspController: Starting to build index of project'') w;
          start = now;
          projPaths = (case workspaceFolders of None \<Rightarrow> [] | Some folders \<Rightarrow> folders)
      in if length projPaths = 0
         then (Settled Resolved,
               perform (Log LogInfo
                 ''LspController: Skipping building index. No projects found in workspace'') w1)
         else
           (let projPaths = sort projPaths;
                w2 = w1\<lparr> isIndexingInProgress := True \<rparr>;
                projRoot = projPaths ! 0
            in (AwaitCollect start buildIndexConfig projPaths projRoot,
                perform (CollectFilesForIndex projPaths
                           (case workspaceFolders of None \<Rightarrow> [] | Some folders \<Rightarrow> folders)
                           True (maxIndexSize buildIndexConfig * 1024 * 1024)) w2)))"

text \<open>After \<^verbatim>\<open>await collectFilesForIndex(...)\<close> (lines 124 to 131).\<close>

definition after_collect ::
  "real \<Rightarrow> real \<Rightarrow> build_index_config \<Rightarrow> string list \<Rightarrow> string \<Rightarrow>
   thrown + index_file list \<Rightarrow> world \<Rightarrow> task \<times> world"
where
  "after_collect now start buildIndexConfig projPaths projRoot awaited w =
     (case awaited of
        Inl error \<Rightarrow> finally_block (catch_block now start error w)
      | Inr files \<Rightarrow>
          (let totalSizeBytes =
                 foldl (\<lambda>accumulator currentFile. accumulator + fileSizeBytes currentFile) 0 files;
               w1 = perform (Log LogInfo (''LspController: Found '' @
                      string_of_nat (length files) @ '' files in current project '' @
                      string_of_array projPaths)) w;
               config = (if isVectorIndexEnabled buildIndexConfig then ''all'' else ''default'');
               r = map fsPath files
           in (AwaitBuild start buildIndexConfig files totalSizeBytes,
               perform (LspBuildIndex r projRoot config) w1)))"

text \<open>After \<^verbatim>\<open>await LspClient.instance.buildIndex(...)\<close> (lines 132 to 134 and 144 to 153).\<close>

definition after_build ::
  "real \<Rightarrow> real \<Rightarrow> build_index_config \<Rightarrow> index_file list \<Rightarrow> nat \<Rightarrow>
   thrown + bool \<Rightarrow> world \<Rightarrow> task \<times> world"
where
  "after_build now start buildIndexConfig files totalSizeBytes awaited w =
     (case awaited of
        Inl error \<Rightarrow> finally_block (catch_block now start error w)
      | Inr resp \<Rightarrow>
          if resp
          then (AwaitUsage start buildIndexConfig files totalSizeBytes,
                perform GetLspServerUsage
                  (perform (Log LogDebug
                     ''LspController: Finish building index of project'') w))
          else finally_block
                 (perform (Emit \<lparr> duration = now - start, result = Failed,
                                  amazonqIndexFileCount = 0,
                                  amazonqIndexMemoryUsageInMB = None,
                                  amazonqIndexCpuUsagePercentage = None,
                                  amazonqIndexFileSizeInMB = 0,
                                  credentialStartUrl = None,
                                  reason = Some ''Unknown'',
                                  reasonDesc = None \<rparr>)
                    (perform (Log LogError
                       ''LspController: Failed to build index of project'') w)))"

text \<open>After \<^verbatim>\<open>await LspClient.instance.getLspServerUsage()\<close> (lines 135 to 143).\<close>

definition after_usage ::
  "real \<Rightarrow> real \<Rightarrow> build_index_config \<Rightarrow> index_file list \<Rightarrow> nat \<Rightarrow>
   thrown + usage option \<Rightarrow> world \<Rightarrow> task \<times> world"
where
  "after_usage now start buildIndexConfig files totalSizeBytes awaited w =
     (case awaited of
        Inl error \<Rightarrow> finally_block (catch_block now start error w)
      | Inr usage \<Rightarrow>
          finally_block
            (perform (Emit \<lparr> duration = now - start, result = Succeeded,
                             amazonqIndexFileCount = length files,
                             amazonqIndexMemoryUsageInMB =
                               (case usage of None \<Rightarrow> None
                                | Some u \<Rightarrow> Some (real (memoryUsage u) / (1024 * 1024))),
                             amazonqIndexCpuUsagePercentage =
                               (case usage of None \<Rightarrow> None | Some u \<Rightarrow> Some (cpuUsage u)),
                             amazonqIndexFileSizeInMB = real totalSizeBytes / (1024 * 1024),
                             credentialStartUrl = startUrl buildIndexConfig,
                             reason = None,
                             reasonDesc = None \<rparr>) w))"

text \<open>
  After \<^verbatim>\<open>await LspClient.instance.getRepoMapJSON()\<close> in the \<^verbatim>\<open>finally\<close> block (lines 168 to
  170). No handler encloses this \<^verbatim>\<open>await\<close>: what it throws rejects the promise of
  \<^verbatim>\<open>buildIndex\<close>.
\<close>

definition after_repomap :: "thrown + string \<Rightarrow> world \<Rightarrow> task \<times> world" where
  "after_repomap awaited w =
     (case awaited of
        Inl error \<Rightarrow> (Settled (Rejected error), w)
      | Inr repomapFile \<Rightarrow>
          (Settled Resolved, perform (Log LogInfo (''File path '' @ repomapFile)) w))"

text \<open>What an awaited promise yields, and the resumption of a task with it.\<close>

datatype answer =
    Files "thrown + index_file list"
  | Built "thrown + bool"
  | Usage "thrown + usage option"
  | RepoMap "thrown + string"

fun resume :: "real \<Rightarrow> task \<Rightarrow> answer \<Rightarrow> world \<Rightarrow> (task \<times> world) option" where
  "resume now (AwaitCollect start cfg projPaths projRoot) (Files r) w =
     Some (after_collect now start cfg projPaths projRoot r w)"
| "resume now (AwaitBuild start cfg files totalSizeBytes) (Built r) w =
     Some (after_build now start cfg files totalSizeBytes r w)"
| "resume now (AwaitUsage start cfg files totalSizeBytes) (Usage r) w =
     Some (after_usage now start cfg files totalSizeBytes r w)"
| "resume now AwaitRepoMap (RepoMap r) w = Some (after_repomap r w)"
| "resume now t a w = None"

subsection \<open>One call of buildIndex, run to its end\<close>

text \<open>
  What the surroundings give to one call: the workspace folders, what each \<^verbatim>\<open>await\<close> yields
  (each is reached at most once), and the two readings of \<^verbatim>\<open>performance.now()\<close>, at the
  start and where the event is emitted.
\<close>

record env =
  workspaceFolders :: "string list option"
  collectFilesForIndex :: "thrown + index_file list"
  lsp_buildIndex :: "thrown + bool"
  getLspServerUsage :: "thrown + usage option"
  getRepoMapJSON :: "thrown + string"
  now_at_start :: real
  now_at_emit :: real

fun awaited :: "env \<Rightarrow> task \<Rightarrow> answer" where
  "awaited env (AwaitCollect start cfg projPaths projRoot) = Files (collectFilesForIndex env)"
| "awaited env (AwaitBuild start cfg files totalSizeBytes) = Built (lsp_buildIndex env)"
| "awaited env (AwaitUsage start cfg files totalSizeBytes) = Usage (getLspServerUsage env)"
| "awaited env t = RepoMap (getRepoMapJSON env)"

definition step :: "env \<Rightarrow> task \<times> world \<Rightarrow> task \<times> world" where
  "step env tw =
     (case resume (now_at_emit env) (fst tw) (awaited env (fst tw)) (snd tw) of
        Some tw' \<Rightarrow> tw'
      | None \<Rightarrow> tw)"

fun settled :: "task \<Rightarrow> bool" where
  "settled (Settled out) = True"
| "settled t = False"

text \<open>The awaits that a task still has before it, at most.\<close>

fun stage :: "task \<Rightarrow> nat" where
  "stage (AwaitCollect start cfg projPaths projRoot) = 4"
| "stage (AwaitBuild start cfg files totalSizeBytes) = 3"
| "stage (AwaitUsage start cfg files totalSizeBytes) = 2"
| "stage AwaitRepoMap = 1"
| "stage (Settled out) = 0"

text \<open>
  The suspensions of a task in order, from a given one to the settled one: each with the
  state in which the task is left there.
\<close>

function drive :: "env \<Rightarrow> task \<times> world \<Rightarrow> (task \<times> world) list" where
  "drive env tw = (if settled (fst tw) then [tw] else tw # drive env (step env tw))"
  by pat_completeness auto
termination
proof (relation "measure (\<lambda>(env, tw). stage (fst tw))")
  show "wf (measure (\<lambda>(env, tw). stage (fst tw)))"
    by simp
next
  fix env :: env and tw :: "task \<times> world"
  assume "\<not> settled (fst tw)"
  then have "stage (fst (step env tw)) < stage (fst tw)"
    by (cases tw, cases "fst tw")
       (auto simp add: step_def after_collect_def after_build_def after_usage_def
          after_repomap_def finally_block_def Let_def split: sum.splits)
  then show "((env, step env tw), (env, tw)) \<in> measure (\<lambda>(env, tw). stage (fst tw))"
    by simp
qed

declare drive.simps [simp del]

text \<open>\<^verbatim>\<open>buildIndex\<close>, run until its promise settles: the settled task and the state then.\<close>

definition buildIndex :: "env \<Rightarrow> build_index_config \<Rightarrow> world \<Rightarrow> task \<times> world" where
  "buildIndex env buildIndexConfig w =
     last (drive env (buildIndex_begin (now_at_start env) buildIndexConfig
                        (workspaceFolders env) w))"

text \<open>The awaits inside the \<^verbatim>\<open>try\<close> block: the build is under way.\<close>

fun in_try :: "task \<Rightarrow> bool" where
  "in_try (AwaitCollect start cfg projPaths projRoot) = True"
| "in_try (AwaitBuild start cfg files totalSizeBytes) = True"
| "in_try (AwaitUsage start cfg files totalSizeBytes) = True"
| "in_try t = False"

subsection \<open>Several calls of buildIndex in flight\<close>

text \<open>
  The extension host runs one thread: a piece of code between two awaits runs without
  interruption, and at an \<^verbatim>\<open>await\<close> any other task whose promise has settled may run. The
  system is the state of the controller with the calls of \<^verbatim>\<open>buildIndex\<close> made so far, in the
  order of their invocation. An event is either a new call, with the reading of the clock
  and the workspace folders at that moment, or the resumption of the task at a position
  with what its \<^verbatim>\<open>await\<close> yields. An event that cannot occur (no such task, or an answer
  to another \<^verbatim>\<open>await\<close> than the one the task is suspended at) gives \<open>None\<close>.
\<close>

record system =
  controller :: world
  tasks :: "task list"

datatype event =
    Invoke real build_index_config "string list option"
  | Resume nat real answer

fun occur :: "event \<Rightarrow> system \<Rightarrow> system option" where
  "occur (Invoke now cfg folders) s =
     (case buildIndex_begin now cfg folders (controller s) of
        (t, w) \<Rightarrow> Some \<lparr> controller = w, tasks = tasks s @ [t] \<rparr>)"
| "occur (Resume i now a) s =
     (if i < length (tasks s)
      then (case resume now (tasks s ! i) a (controller s) of
              None \<Rightarrow> None
            | Some (t, w) \<Rightarrow> Some \<lparr> controller = w, tasks = (tasks s)[i := t] \<rparr>)
      else None)"

fun run :: "event list \<Rightarrow> system \<Rightarrow> system option" where
  "run [] s = Some s"
| "run (e # es) s = (case occur e s of None \<Rightarrow> None | Some s' \<Rightarrow> run es s')"

text \<open>
  A caller that reads \<^verbatim>\<open>isIndexingInProgress()\<close> first and calls \<^verbatim>\<open>buildIndex\<close> only when it
  returns false; the test and the call are in one piece of code. A schedule in which a
  call is made while the flag is true is not one of such callers.
\<close>

fun occur_checked :: "event \<Rightarrow> system \<Rightarrow> system option" where
  "occur_checked (Invoke now cfg folders) s =
     (if isIndexingInProgress (controller s) then None
      else occur (Invoke now cfg folders) s)"
| "occur_checked (Resume i now a) s = occur (Resume i now a) s"

fun run_checked :: "event list \<Rightarrow> system \<Rightarrow> system option" where
  "run_checked [] s = Some s"
| "run_checked (e # es) s =
     (case occur_checked e s of None \<Rightarrow> None | Some s' \<Rightarrow> run_checked es s')"

text \<open>The calls that are inside their \<^verbatim>\<open>try\<close> block.\<close>

definition building :: "system \<Rightarrow> task list" where
  "building s = filter in_try (tasks s)"

definition idle :: system where
  "idle = \<lparr> controller = \<lparr> isIndexingInProgress = False, trace = [] \<rparr>, tasks = [] \<rparr>"

text \<open>
  Calls whose builds do not overlap: a schedule in which a call is made while another call
  is inside its \<^verbatim>\<open>try\<close> block is not one of them.
\<close>

fun occur_apart :: "event \<Rightarrow> system \<Rightarrow> system option" where
  "occur_apart (Invoke now cfg folders) s =
     (if building s \<noteq> [] then None else occur (Invoke now cfg folders) s)"
| "occur_apart (Resume i now a) s = occur (Resume i now a) s"

fun run_apart :: "event list \<Rightarrow> system \<Rightarrow> system option" where
  "run_apart [] s = Some s"
| "run_apart (e # es) s =
     (case occur_apart e s of None \<Rightarrow> None | Some s' \<Rightarrow> run_apart es s')"

text \<open>
  Mutual exclusion: at most one call is inside its \<^verbatim>\<open>try\<close> block, and the flag is true exactly
  when one is.
\<close>

definition exclusive :: "system \<Rightarrow> bool" where
  "exclusive s \<longleftrightarrow>
     length (building s) \<le> 1 \<and>
     (isIndexingInProgress (controller s) \<longleftrightarrow> building s \<noteq> [])"

subsection \<open>The installation on disk\<close>

text \<open>
  Modelled from the spec: the file-system utilities \<^verbatim>\<open>fs.exists\<close>, \<^verbatim>\<open>fs.delete\<close> and
  \<^verbatim>\<open>tryRemoveFolder\<close> (of \<^verbatim>\<open>shared/fs/fs\<close> and \<^verbatim>\<open>shared/filesystemUtilities\<close>) are not among
  the sources. The spec has them as generic utilities, with the removal of the server
  directory and of the runtime binary ignoring what is absent. A disk is the set of the
  paths that exist; deleting a path removes it, removing a folder removes it with all that
  lies inside it, and both succeed.
\<close>

type_synonym disk = "string set"

definition inside :: "string \<Rightarrow> string \<Rightarrow> bool" where
  "inside folder p \<longleftrightarrow> p = folder \<or> prefix (folder @ ''/'') p"

definition fs_exists :: "string \<Rightarrow> disk \<Rightarrow> bool" where
  "fs_exists p d \<longleftrightarrow> p \<in> d"

definition fs_delete :: "string \<Rightarrow> disk \<Rightarrow> disk" where
  "fs_delete p d = d - {p}"

definition remove_folder :: "string \<Rightarrow> disk \<Rightarrow> disk" where
  "remove_folder folder d = Set.filter (\<lambda>p. \<not> inside folder p) d"

text \<open>
  The host that \<^verbatim>\<open>install\<close> and \<^verbatim>\<open>cleanup\<close> act on: the disk, and a journal of what they do,
  in order (log lines, and the calls of the utilities that write to the disk).
\<close>

datatype host_op =
    HostLog level string
  | MakeTemporaryToolkitFolder
  | DownloadAndExtractServer string string string bool
  | InstallRuntime string string
  | TryRemoveFolder string
  | FsDelete string

record host =
  disk :: disk
  journal :: "host_op list"

definition journal_op :: "host_op \<Rightarrow> host \<Rightarrow> host" where
  "journal_op x h = h\<lparr> journal := journal h @ [x] \<rparr>"

definition tryRemoveFolder :: "string \<Rightarrow> host \<Rightarrow> host" where
  "tryRemoveFolder folder h =
     journal_op (TryRemoveFolder folder) (h\<lparr> disk := remove_folder folder (disk h) \<rparr>)"

definition fs_delete_path :: "string \<Rightarrow> host \<Rightarrow> host" where
  "fs_delete_path p h = journal_op (FsDelete p) (h\<lparr> disk := fs_delete p (disk h) \<rparr>)"

text \<open>
  The fields of the controller that the constructor sets, with \<^verbatim>\<open>process.platform\<close> and
  \<^verbatim>\<open>process.arch\<close>, which the module reads.
\<close>

record lsp_controller =
  serverPath :: string
  nodePath :: string
  platform :: string
  arch :: string

definition nodeBinName :: "lsp_controller \<Rightarrow> string" where
  "nodeBinName this = (if platform this = ''win32'' then ''node.exe'' else ''node'')"

definition isLspInstalled :: "lsp_controller \<Rightarrow> host \<Rightarrow> bool" where
  "isLspInstalled this h \<longleftrightarrow>
     fs_exists (serverPath this) (disk h) \<and> fs_exists (nodePath this) (disk h)"

definition cleanup :: "lsp_controller \<Rightarrow> host \<Rightarrow> bool \<times> host" where
  "cleanup this h =
     (let h1 = (if fs_exists (serverPath this) (disk h)
                then tryRemoveFolder (serverPath this) h else h);
          h2 = (if fs_exists (nodePath this) (disk h1)
                then fs_delete_path (nodePath this) h1 else h1)
      in (True, h2))"

text \<open>
  The base class \<^verbatim>\<open>LspDownloader\<close> (of \<^verbatim>\<open>shared/fetchLsp\<close>) and \<^verbatim>\<open>makeTemporaryToolkitFolder\<close>
  are not among the sources either; they are parameters. \<^verbatim>\<open>getDependency\<close> looks an entry
  of the manifest up, for the platform and the architecture of the process; the three
  others act on the disk, and they resolve or throw. The manifest and its entries are of
  any type.
\<close>

record ('m, 'c) lsp_downloader =
  getDependency :: "'m \<Rightarrow> string \<Rightarrow> 'c option"
  makeTemporaryToolkitFolder :: "disk \<Rightarrow> (thrown + string) \<times> disk"
  downloadAndExtractServer ::
    "'c \<Rightarrow> string \<Rightarrow> string \<Rightarrow> string \<Rightarrow> bool \<Rightarrow> disk \<Rightarrow> (thrown + bool) \<times> disk"
  installRuntime :: "'c \<Rightarrow> string \<Rightarrow> string \<Rightarrow> disk \<Rightarrow> (thrown + bool) \<times> disk"

text \<open>
  \<^verbatim>\<open>path.join\<close> of a folder and a name: the two with a separator between them (the temporary
  folder is a normalized path, and the name has no separator).
\<close>

definition path_join :: "string \<Rightarrow> string \<Rightarrow> string" where
  "path_join folder base = folder @ ''/'' @ base"

text \<open>The \<^verbatim>\<open>finally\<close> block of \<^verbatim>\<open>install\<close>; a folder is truthy when its path is not empty.\<close>

definition install_finally :: "string option \<Rightarrow> host \<Rightarrow> host" where
  "install_finally tempFolder h =
     (case tempFolder of
        None \<Rightarrow> h
      | Some folder \<Rightarrow> if folder \<noteq> [] then tryRemoveFolder folder h else h)"

definition install ::
  "('m, 'c) lsp_downloader \<Rightarrow> lsp_controller \<Rightarrow> 'm \<Rightarrow> host \<Rightarrow> (thrown + bool) \<times> host"
where
  "install this_downloader this manifest h =
     (case (getDependency this_downloader manifest ''qserver'',
            getDependency this_downloader manifest ''node'') of
        (Some server, Some runtime) \<Rightarrow>
          (case makeTemporaryToolkitFolder this_downloader (disk h) of
             (Inl error, d1) \<Rightarrow>
               (Inl error,
                install_finally None (journal_op MakeTemporaryToolkitFolder (h\<lparr> disk := d1 \<rparr>)))
           | (Inr tempFolder, d1) \<Rightarrow>
               (let h1 = journal_op MakeTemporaryToolkitFolder (h\<lparr> disk := d1 \<rparr>)
                in case downloadAndExtractServer this_downloader server (serverPath this)
                          ''qserver'' tempFolder True (disk h1) of
                     (Inl error, d2) \<Rightarrow>
                       (Inl error,
                        install_finally (Some tempFolder)
                          (journal_op (DownloadAndExtractServer (serverPath this) ''qserver''
                                   tempFolder True) (h1\<lparr> disk := d2 \<rparr>)))
                   | (Inr extracted, d2) \<Rightarrow>
                       (let h2 = journal_op (DownloadAndExtractServer (serverPath this) ''qserver''
                                         tempFolder True) (h1\<lparr> disk := d2 \<rparr>);
                            runtimeTempPath = path_join tempFolder (nodeBinName this)
                        in case installRuntime this_downloader runtime (nodePath this)
                                  runtimeTempPath (disk h2) of
                             (Inl error, d3) \<Rightarrow>
                               (Inl error,
                                install_finally (Some tempFolder)
                                  (journal_op (InstallRuntime (nodePath this) runtimeTempPath)
                                     (h2\<lparr> disk := d3 \<rparr>)))
                           | (Inr installed, d3) \<Rightarrow>
                               (Inr True,
                                install_finally (Some tempFolder)
                                  (journal_op (InstallRuntime (nodePath this) runtimeTempPath)
                                     (h2\<lparr> disk := d3 \<rparr>))))))
      | _ \<Rightarrow>
          (Inr False,
           journal_op (HostLog LogInfo
                   (''Did not find LSP URL for '' @ platform this @ '' '' @ arch this)) h))"

section \<open>Properties of query\<close>

lemma query_chunks:
  "queryVectorIndex s = Inr (Some chunks) \<Longrightarrow>
   query queryVectorIndex s = Inr (map query_chunk chunks)"
  by (simp add: query_def)

text \<open>
  C5, as the code has it: for every chunk whose \<^verbatim>\<open>context\<close> is a non-empty string, the record
  that \<^verbatim>\<open>query\<close> produces at the chunk's position has that context as its text, whatever the
  chunk's content is. With context \<^verbatim>\<open>"CTX"\<close> and content \<^verbatim>\<open>"RAW"\<close> the text is \<^verbatim>\<open>"CTX"\<close>.
\<close>

theorem query_text_prefers_nonempty_context:
  assumes "queryVectorIndex s = Inr (Some chunks)"
    and "i < length chunks"
    and "chunk_context (chunks ! i) = Some x"
    and "x \<noteq> []"
  shows "\<exists>resp. query queryVectorIndex s = Inr resp \<and> length resp = length chunks \<and>
           doc_text (resp ! i) = x"
  using assms by (simp add: query_chunks query_chunk_def truthy_def Let_def)

theorem query_text_prefers_nonempty_context_witness:
  "\<exists>resp. query (always (Inr (Some [\<lparr> filePath = ''/x/y.py'', content = ''RAW'',
        chunk_context = Some ''CTX'', relativePath = None, programmingLanguage = None \<rparr>]))) ''q''
      = Inr resp \<and> length resp = 1 \<and> doc_text (resp ! 0) = ''CTX''"
  using query_text_prefers_nonempty_context
    [of "always (Inr (Some [\<lparr> filePath = ''/x/y.py'', content = ''RAW'',
        chunk_context = Some ''CTX'', relativePath = None, programmingLanguage = None \<rparr>]))"
      "''q''" _ 0 "''CTX''"]
  by (simp add: always_def)

text \<open>
  C5 as stated fails for a chunk that has the field \<^verbatim>\<open>context\<close> with the empty string as its
  value: the text of its record is the content \<^verbatim>\<open>"RAW"\<close>, not the context.
\<close>

theorem query_empty_context_counterexample:
  "query (always (Inr (Some [\<lparr> filePath = ''/x/y.py'', content = ''RAW'',
        chunk_context = Some '''', relativePath = None, programmingLanguage = None \<rparr>]))) ''q''
   = Inr [\<lparr> doc_text = ''RAW'', relativeFilePath = ''y.py'', doc_programmingLanguage = None \<rparr>]"
  by (simp add: always_def query_def query_chunk_def truthy_def basename_def)

text \<open>
  C6: for every chunk whose \<^verbatim>\<open>programmingLanguage\<close> is absent or is \<^verbatim>\<open>"unknown"\<close>, the record
  that \<^verbatim>\<open>query\<close> produces at the chunk's position has no language; for every chunk without
  \<^verbatim>\<open>relativePath\<close>, the relative path of the record is the basename of \<^verbatim>\<open>filePath\<close>.
\<close>

theorem query_language_and_basename:
  assumes "queryVectorIndex s = Inr (Some chunks)"
    and "i < length chunks"
  shows "\<exists>resp. query queryVectorIndex s = Inr resp \<and> length resp = length chunks \<and>
           (programmingLanguage (chunks ! i) = None \<or>
            programmingLanguage (chunks ! i) = Some ''unknown''
              \<longrightarrow> doc_programmingLanguage (resp ! i) = None) \<and>
           (relativePath (chunks ! i) = None
              \<longrightarrow> relativeFilePath (resp ! i) = basename (filePath (chunks ! i)))"
  using assms by (auto simp add: query_chunks query_chunk_def truthy_def Let_def)

text \<open>
  The chunk \<^verbatim>\<open>{filePath: "/x/y.py", content: "C", programmingLanguage: "unknown"}\<close> of C6
  gives a record without a language and with the relative path \<^verbatim>\<open>y.py\<close>.
\<close>

theorem query_language_and_basename_witness:
  "\<exists>resp. query (always (Inr (Some [\<lparr> filePath = ''/x/y.py'', content = ''C'',
        chunk_context = None, relativePath = None, programmingLanguage = Some ''unknown'' \<rparr>]))) ''q''
      = Inr resp \<and> length resp = 1 \<and> doc_programmingLanguage (resp ! 0) = None \<and>
        relativeFilePath (resp ! 0) = ''y.py''"
  using query_language_and_basename
    [of "always (Inr (Some [\<lparr> filePath = ''/x/y.py'', content = ''C'',
        chunk_context = None, relativePath = None, programmingLanguage = Some ''unknown'' \<rparr>]))"
      "''q''" _ 0]
  by (simp add: always_def basename_def)

text \<open>
  C7: whenever \<^verbatim>\<open>queryVectorIndex\<close> yields \<^verbatim>\<open>undefined\<close>, \<^verbatim>\<open>query\<close> returns the empty
  list of records; it does not reject.
\<close>

theorem query_undefined_is_empty:
  "queryVectorIndex s = Inr None \<Longrightarrow> query queryVectorIndex s = Inr []"
  by (simp add: query_def)

theorem query_undefined_is_empty_witness:
  "query (always (Inr None)) ''q'' = Inr []"
  using query_undefined_is_empty [of "always (Inr None)" "''q''"]
  by (simp add: always_def)

text \<open>
  C10: presence of the optional fields is decided by truthiness, not by whether the field
  was given. For every chunk, the text of its record is the \<^verbatim>\<open>context\<close> when that is a
  non-empty string, and the content when the \<^verbatim>\<open>context\<close> is the empty string or is absent;
  the relative path of its record is the \<^verbatim>\<open>relativePath\<close> when that is a non-empty string,
  and the basename of \<^verbatim>\<open>filePath\<close> when the \<^verbatim>\<open>relativePath\<close> is the empty string or is
  absent.
\<close>

theorem query_presence_is_truthiness:
  assumes "queryVectorIndex s = Inr (Some chunks)"
    and "i < length chunks"
  shows "\<exists>resp. query queryVectorIndex s = Inr resp \<and> length resp = length chunks \<and>
           (\<forall>x. chunk_context (chunks ! i) = Some x \<and> x \<noteq> []
              \<longrightarrow> doc_text (resp ! i) = x) \<and>
           (chunk_context (chunks ! i) = Some []
              \<longrightarrow> doc_text (resp ! i) = content (chunks ! i)) \<and>
           (chunk_context (chunks ! i) = None
              \<longrightarrow> doc_text (resp ! i) = content (chunks ! i)) \<and>
           (\<forall>x. relativePath (chunks ! i) = Some x \<and> x \<noteq> []
              \<longrightarrow> relativeFilePath (resp ! i) = x) \<and>
           (relativePath (chunks ! i) = Some []
              \<longrightarrow> relativeFilePath (resp ! i) = basename (filePath (chunks ! i))) \<and>
           (relativePath (chunks ! i) = None
              \<longrightarrow> relativeFilePath (resp ! i) = basename (filePath (chunks ! i)))"
  using assms by (auto simp add: query_chunks query_chunk_def truthy_def Let_def)

text \<open>
  An instance with the three kinds of chunk: both fields the empty string, both fields
  non-empty, both fields absent.
\<close>

theorem query_presence_is_truthiness_witness:
  "\<exists>resp. query (always (Inr (Some
        [\<lparr> filePath = ''/x/y.py'', content = ''RAW'',
           chunk_context = Some '''', relativePath = Some '''', programmingLanguage = None \<rparr>,
         \<lparr> filePath = ''/x/y.py'', content = ''RAW'',
           chunk_context = Some ''CTX'', relativePath = Some ''x/y.py'',
           programmingLanguage = None \<rparr>,
         \<lparr> filePath = ''/x/z.py'', content = ''RAW'',
           chunk_context = None, relativePath = None, programmingLanguage = None \<rparr>]))) ''q''
      = Inr resp \<and> length resp = 3 \<and>
        doc_text (resp ! 0) = ''RAW'' \<and> relativeFilePath (resp ! 0) = ''y.py'' \<and>
        doc_text (resp ! 1) = ''CTX'' \<and> relativeFilePath (resp ! 1) = ''x/y.py'' \<and>
        doc_text (resp ! 2) = ''RAW'' \<and> relativeFilePath (resp ! 2) = ''z.py''"
  using
    query_presence_is_truthiness
      [of "always (Inr (Some
        [\<lparr> filePath = ''/x/y.py'', content = ''RAW'',
           chunk_context = Some '''', relativePath = Some '''', programmingLanguage = None \<rparr>,
         \<lparr> filePath = ''/x/y.py'', content = ''RAW'',
           chunk_context = Some ''CTX'', relativePath = Some ''x/y.py'',
           programmingLanguage = None \<rparr>,
         \<lparr> filePath = ''/x/z.py'', content = ''RAW'',
           chunk_context = None, relativePath = None, programmingLanguage = None \<rparr>]))"
        "''q''" _ 0]
    query_presence_is_truthiness
      [of "always (Inr (Some
        [\<lparr> filePath = ''/x/y.py'', content = ''RAW'',
           chunk_context = Some '''', relativePath = Some '''', programmingLanguage = None \<rparr>,
         \<lparr> filePath = ''/x/y.py'', content = ''RAW'',
           chunk_context = Some ''CTX'', relativePath = Some ''x/y.py'',
           programmingLanguage = None \<rparr>,
         \<lparr> filePath = ''/x/z.py'', content = ''RAW'',
           chunk_context = None, relativePath = None, programmingLanguage = None \<rparr>]))"
        "''q''" _ 1]
    query_presence_is_truthiness
      [of "always (Inr (Some
        [\<lparr> filePath = ''/x/y.py'', content = ''RAW'',
           chunk_context = Some '''', relativePath = Some '''', programmingLanguage = None \<rparr>,
         \<lparr> filePath = ''/x/y.py'', content = ''RAW'',
           chunk_context = Some ''CTX'', relativePath = Some ''x/y.py'',
           programmingLanguage = None \<rparr>,
         \<lparr> filePath = ''/x/z.py'', content = ''RAW'',
           chunk_context = None, relativePath = None, programmingLanguage = None \<rparr>]))"
        "''q''" _ 2]
  by (auto simp add: always_def basename_def)

section \<open>Properties of buildIndex\<close>

lemma stage_decreases: "\<not> settled (fst tw) \<Longrightarrow> stage (fst (step env tw)) < stage (fst tw)"
  by (cases tw, cases "fst tw")
     (auto simp add: step_def after_collect_def after_build_def after_usage_def
        after_repomap_def finally_block_def Let_def split: sum.splits)

lemma drive_settled: "settled (fst tw) \<Longrightarrow> drive env tw = [tw]"
  by (simp add: drive.simps)

lemma drive_pending: "\<not> settled (fst tw) \<Longrightarrow> drive env tw = tw # drive env (step env tw)"
  by (subst drive.simps) simp

lemma drive_not_Nil: "drive env tw \<noteq> []"
  by (subst drive.simps) simp

lemma last_drive_step:
  "\<not> settled (fst tw) \<Longrightarrow> last (drive env tw) = last (drive env (step env tw))"
  by (simp add: drive_pending drive_not_Nil)

lemma drive_invariant:
  assumes "P tw" and "\<And>x. P x \<Longrightarrow> \<not> settled (fst x) \<Longrightarrow> P (step env x)"
  shows "\<forall>x \<in> set (drive env tw). P x"
  using assms(1)
proof (induction "stage (fst tw)" arbitrary: tw rule: less_induct)
  case less
  show ?case
  proof (cases "settled (fst tw)")
    case True
    with less.prems show ?thesis by (simp add: drive_settled)
  next
    case False
    have "P (step env tw)" by (rule assms(2) [OF less.prems False])
    then have "\<forall>x \<in> set (drive env (step env tw)). P x"
      by (rule less.hyps [OF stage_decreases [OF False]])
    with less.prems False show ?thesis by (simp add: drive_pending)
  qed
qed

lemma last_drive_settled: "settled (fst (last (drive env tw)))"
proof (induction "stage (fst tw)" arbitrary: tw rule: less_induct)
  case less
  show ?case
  proof (cases "settled (fst tw)")
    case True
    then show ?thesis by (simp add: drive_settled)
  next
    case False
    have "settled (fst (last (drive env (step env tw))))"
      by (rule less.hyps [OF stage_decreases [OF False]])
    with False show ?thesis by (simp add: last_drive_step)
  qed
qed

lemma step_flag:
  assumes "isIndexingInProgress (snd tw) = in_try (fst tw)"
  shows "isIndexingInProgress (snd (step env tw)) = in_try (fst (step env tw))"
  using assms
  by (cases tw, cases "fst tw")
     (auto simp add: step_def after_collect_def after_build_def after_usage_def
        after_repomap_def finally_block_def catch_block_def perform_def Let_def
        split: sum.splits)

lemma begin_nonempty:
  assumes "folders \<noteq> []"
  shows "buildIndex_begin now cfg (Some folders) w =
     (AwaitCollect now cfg (sort folders) (hd (sort folders)),
      perform (CollectFilesForIndex (sort folders) folders True (maxIndexSize cfg * 1024 * 1024))
        ((perform (Log LogInfo ''LspController: Starting to build index of project'') w)
           \<lparr> isIndexingInProgress := True \<rparr>))"
proof -
  from assms have "sort folders \<noteq> []" by (metis length_sort length_0_conv)
  then have "sort folders ! 0 = hd (sort folders)" by (simp add: hd_conv_nth)
  with assms show ?thesis by (simp add: buildIndex_begin_def Let_def)
qed

lemmas run_simps = buildIndex_def begin_nonempty last_drive_step drive_settled step_def
  after_collect_def after_build_def after_usage_def after_repomap_def finally_block_def
  catch_block_def

lemma collect_throws:
  assumes "workspaceFolders env = Some folders" and "folders \<noteq> []"
    and "collectFilesForIndex env = Inl error"
  shows "buildIndex env cfg w =
     after_repomap (getRepoMapJSON env)
       \<lparr> isIndexingInProgress = False,
         trace = trace w @
           [Log LogInfo ''LspController: Starting to build index of project'',
            CollectFilesForIndex (sort folders) folders True (maxIndexSize cfg * 1024 * 1024),
            Log LogError ''LspController: Failed to build index of project'',
            Emit \<lparr> duration = now_at_emit env - now_at_start env, result = Failed,
                  amazonqIndexFileCount = 0,
                  amazonqIndexMemoryUsageInMB = None,
                  amazonqIndexCpuUsagePercentage = None,
                  amazonqIndexFileSizeInMB = 0,
                  credentialStartUrl = None,
                  reason = Some (case error of Error n m \<Rightarrow> n | NonError s \<Rightarrow> ''Unknown''),
                  reasonDesc = Some (''Error when building index. '' @
                    (case error of Error n m \<Rightarrow> m | NonError s \<Rightarrow> s)) \<rparr>,
            GetRepoMapJSON] \<rparr>"
  using assms
  by (cases "getRepoMapJSON env") (simp_all add: run_simps perform_def)

lemma build_throws:
  assumes "workspaceFolders env = Some folders" and "folders \<noteq> []"
    and "collectFilesForIndex env = Inr files" and "lsp_buildIndex env = Inl error"
  shows "buildIndex env cfg w =
     after_repomap (getRepoMapJSON env)
       \<lparr> isIndexingInProgress = False,
         trace = trace w @
           [Log LogInfo ''LspController: Starting to build index of project'',
            CollectFilesForIndex (sort folders) folders True (maxIndexSize cfg * 1024 * 1024),
            Log LogInfo (''LspController: Found '' @ string_of_nat (length files) @
              '' files in current project '' @ string_of_array (sort folders)),
            LspBuildIndex (map fsPath files) (hd (sort folders))
              (if isVectorIndexEnabled cfg then ''all'' else ''default''),
            Log LogError ''LspController: Failed to build index of project'',
            Emit \<lparr> duration = now_at_emit env - now_at_start env, result = Failed,
                  amazonqIndexFileCount = 0,
                  amazonqIndexMemoryUsageInMB = None,
                  amazonqIndexCpuUsagePercentage = None,
                  amazonqIndexFileSizeInMB = 0,
                  credentialStartUrl = None,
                  reason = Some (case error of Error n m \<Rightarrow> n | NonError s \<Rightarrow> ''Unknown''),
                  reasonDesc = Some (''Error when building index. '' @
                    (case error of Error n m \<Rightarrow> m | NonError s \<Rightarrow> s)) \<rparr>,
            GetRepoMapJSON] \<rparr>"
  using assms
  by (cases "getRepoMapJSON env") (simp_all add: run_simps perform_def Let_def)

lemma after_repomap_trace:
  "\<exists>after. trace (snd (after_repomap r w)) = trace w @ after \<and> (\<forall>ev. Emit ev \<notin> set after)"
  by (cases r) (simp_all add: after_repomap_def perform_def)

lemma after_repomap_flag:
  "isIndexingInProgress (snd (after_repomap r w)) = isIndexingInProgress w"
  by (cases r) (simp_all add: after_repomap_def perform_def)

lemma after_repomap_settled: "settled (fst (after_repomap r w))"
  by (cases r) (simp_all add: after_repomap_def)

lemma after_repomap_resolved: "fst (after_repomap (Inr f) w) = Settled Resolved"
  by (simp add: after_repomap_def)

text \<open>
  C3, as the code has it: for every error thrown by the collection of the files or by the
  build call of the client, \<^verbatim>\<open>buildIndex\<close> catches the error, writes the error line to the
  log, emits one event, with result \<^verbatim>\<open>Failed\<close>, with the name of the error (or \<^verbatim>\<open>Unknown\<close>)
  as reason and with a description made of its message, and then clears the flag and
  asks for the repository map. The call settles; it resolves whenever the retrieval of the
  repository map resolves.
\<close>

theorem buildIndex_absorbs_error:
  assumes "workspaceFolders env = Some folders" and "folders \<noteq> []"
    and "collectFilesForIndex env = Inl error \<or>
         (collectFilesForIndex env = Inr files \<and> lsp_buildIndex env = Inl error)"
  shows "\<exists>before after.
           trace (snd (buildIndex env cfg w)) =
             trace w @ before @
             [Log LogError ''LspController: Failed to build index of project'',
              Emit \<lparr> duration = now_at_emit env - now_at_start env, result = Failed,
                     amazonqIndexFileCount = 0,
                     amazonqIndexMemoryUsageInMB = None,
                     amazonqIndexCpuUsagePercentage = None,
                     amazonqIndexFileSizeInMB = 0,
                     credentialStartUrl = None,
                     reason = Some (case error of Error n m \<Rightarrow> n | NonError s \<Rightarrow> ''Unknown''),
                     reasonDesc = Some (''Error when building index. '' @
                       (case error of Error n m \<Rightarrow> m | NonError s \<Rightarrow> s)) \<rparr>,
              GetRepoMapJSON] @ after \<and>
           (\<forall>ev. Emit ev \<notin> set before) \<and> (\<forall>ev. Emit ev \<notin> set after) \<and>
           settled (fst (buildIndex env cfg w)) \<and>
           \<not> isIndexingInProgress (snd (buildIndex env cfg w)) \<and>
           (\<forall>repomapFile. getRepoMapJSON env = Inr repomapFile \<longrightarrow>
              fst (buildIndex env cfg w) = Settled Resolved)"
proof -
  let ?ev = "\<lparr> duration = now_at_emit env - now_at_start env, result = Failed,
                     amazonqIndexFileCount = 0,
                     amazonqIndexMemoryUsageInMB = None,
                     amazonqIndexCpuUsagePercentage = None,
                     amazonqIndexFileSizeInMB = 0,
                     credentialStartUrl = None,
                     reason = Some (case error of Error n m \<Rightarrow> n | NonError s \<Rightarrow> ''Unknown''),
                     reasonDesc = Some (''Error when building index. '' @
                       (case error of Error n m \<Rightarrow> m | NonError s \<Rightarrow> s)) \<rparr>"
  let ?tail = "[Log LogError ''LspController: Failed to build index of project'', Emit ?ev,
                GetRepoMapJSON]"
  from assms(3) obtain before where
    run: "buildIndex env cfg w = after_repomap (getRepoMapJSON env)
            \<lparr> isIndexingInProgress = False, trace = trace w @ before @ ?tail \<rparr>"
    and before: "\<forall>ev. Emit ev \<notin> set before"
  proof
    assume c: "collectFilesForIndex env = Inl error"
    show thesis
      by (rule that [of "[Log LogInfo ''LspController: Starting to build index of project'',
            CollectFilesForIndex (sort folders) folders True (maxIndexSize cfg * 1024 * 1024)]"])
         (simp_all add: collect_throws [OF assms(1,2) c])
  next
    assume "collectFilesForIndex env = Inr files \<and> lsp_buildIndex env = Inl error"
    then have c: "collectFilesForIndex env = Inr files" and b: "lsp_buildIndex env = Inl error"
      by simp_all
    show thesis
      by (rule that [of "[Log LogInfo ''LspController: Starting to build index of project'',
            CollectFilesForIndex (sort folders) folders True (maxIndexSize cfg * 1024 * 1024),
            Log LogInfo (''LspController: Found '' @ string_of_nat (length files) @
              '' files in current project '' @ string_of_array (sort folders)),
            LspBuildIndex (map fsPath files) (hd (sort folders))
              (if isVectorIndexEnabled cfg then ''all'' else ''default'')]"])
         (simp_all add: build_throws [OF assms(1,2) c b])
  qed
  let ?w = "\<lparr> isIndexingInProgress = False, trace = trace w @ before @ ?tail \<rparr>"
  obtain after where after: "trace (snd (after_repomap (getRepoMapJSON env) ?w)) = trace ?w @ after"
    and noemit: "\<forall>ev. Emit ev \<notin> set after"
    using after_repomap_trace [of "getRepoMapJSON env" ?w] by blast
  have "trace (snd (buildIndex env cfg w)) = trace w @ before @ ?tail @ after"
    using run after by simp
  moreover have "settled (fst (buildIndex env cfg w))"
    by (simp add: run after_repomap_settled)
  moreover have "\<not> isIndexingInProgress (snd (buildIndex env cfg w))"
    by (simp add: run after_repomap_flag)
  moreover have "\<forall>repomapFile. getRepoMapJSON env = Inr repomapFile \<longrightarrow>
              fst (buildIndex env cfg w) = Settled Resolved"
    by (simp add: run after_repomap_resolved)
  ultimately show ?thesis using before noemit by blast
qed

theorem buildIndex_absorbs_error_witness:
  "\<exists>before after.
     trace (snd (buildIndex
        \<lparr> workspaceFolders = Some [''/b'', ''/a''],
          collectFilesForIndex = Inl (Error ''RangeError'' ''too deep''),
          lsp_buildIndex = Inr True, getLspServerUsage = Inr None,
          getRepoMapJSON = Inr ''/tmp/repomap.json'',
          now_at_start = 0, now_at_emit = 5 \<rparr>
        \<lparr> startUrl = None, maxIndexSize = 1, isVectorIndexEnabled = True \<rparr>
        \<lparr> isIndexingInProgress = False, trace = [] \<rparr>)) =
       before @
       [Log LogError ''LspController: Failed to build index of project'',
        Emit \<lparr> duration = 5, result = Failed,
               amazonqIndexFileCount = 0,
               amazonqIndexMemoryUsageInMB = None,
               amazonqIndexCpuUsagePercentage = None,
               amazonqIndexFileSizeInMB = 0,
               credentialStartUrl = None,
               reason = Some ''RangeError'',
               reasonDesc = Some ''Error when building index. too deep'' \<rparr>,
        GetRepoMapJSON] @ after \<and>
     fst (buildIndex
        \<lparr> workspaceFolders = Some [''/b'', ''/a''],
          collectFilesForIndex = Inl (Error ''RangeError'' ''too deep''),
          lsp_buildIndex = Inr True, getLspServerUsage = Inr None,
          getRepoMapJSON = Inr ''/tmp/repomap.json'',
          now_at_start = 0, now_at_emit = 5 \<rparr>
        \<lparr> startUrl = None, maxIndexSize = 1, isVectorIndexEnabled = True \<rparr>
        \<lparr> isIndexingInProgress = False, trace = [] \<rparr>) = Settled Resolved"
  using buildIndex_absorbs_error [of
        "\<lparr> workspaceFolders = Some [''/b'', ''/a''],
          collectFilesForIndex = Inl (Error ''RangeError'' ''too deep''),
          lsp_buildIndex = Inr True, getLspServerUsage = Inr None,
          getRepoMapJSON = Inr ''/tmp/repomap.json'',
          now_at_start = 0, now_at_emit = 5 \<rparr>"
        "[''/b'', ''/a'']" "Error ''RangeError'' ''too deep''" "[]"
        "\<lparr> startUrl = None, maxIndexSize = 1, isVectorIndexEnabled = True \<rparr>"
        "\<lparr> isIndexingInProgress = False, trace = [] \<rparr>"]
  by simp blast

text \<open>
  C3 as stated fails where the retrieval of the repository map throws as well: the error
  of the collection is caught, but the promise of \<^verbatim>\<open>buildIndex\<close> rejects, with what the
  retrieval threw.
\<close>

theorem buildIndex_rejects_counterexample:
  "fst (buildIndex
      \<lparr> workspaceFolders = Some [''/b'', ''/a''],
        collectFilesForIndex = Inl (Error ''RangeError'' ''too deep''),
        lsp_buildIndex = Inr True, getLspServerUsage = Inr None,
        getRepoMapJSON = Inl (Error ''ResponseError'' ''connection closed''),
        now_at_start = 0, now_at_emit = 5 \<rparr>
      \<lparr> startUrl = None, maxIndexSize = 1, isVectorIndexEnabled = True \<rparr>
      \<lparr> isIndexingInProgress = False, trace = [] \<rparr>)
   = Settled (Rejected (Error ''ResponseError'' ''connection closed''))"
  by (simp add: run_simps perform_def)

lemma hd_sort_Min:
  fixes xs :: "'a::linorder list"
  assumes "xs \<noteq> []"
  shows "hd (sort xs) = Min (set xs)"
proof -
  from assms have ne: "sort xs \<noteq> []" by (metis length_sort length_0_conv)
  then obtain y ys where s: "sort xs = y # ys" by (cases "sort xs") auto
  have "sorted (y # ys)" using s by (metis sorted_sort)
  then have le: "\<forall>z \<in> set (y # ys). y \<le> z" by auto
  have set: "set (y # ys) = set xs" using s by (metis set_sort)
  have "Min (set xs) = y"
  proof (rule Min_eqI)
    show "finite (set xs)" by simp
    show "\<And>z. z \<in> set xs \<Longrightarrow> y \<le> z" using le set by blast
    show "y \<in> set xs" using set by auto
  qed
  with s show ?thesis by simp
qed


lemma build_call:
  assumes "workspaceFolders env = Some folders" and "folders \<noteq> []"
  shows "\<exists>new. trace (snd (buildIndex env cfg w)) = trace w @ new \<and>
           (\<forall>r root config. LspBuildIndex r root config \<in> set new \<longrightarrow> root = hd (sort folders)) \<and>
           (\<forall>files. collectFilesForIndex env = Inr files \<longrightarrow>
              LspBuildIndex (map fsPath files) (hd (sort folders))
                (if isVectorIndexEnabled cfg then ''all'' else ''default'') \<in> set new)"
  using assms
  by (cases "collectFilesForIndex env"; cases "lsp_buildIndex env";
      cases "getLspServerUsage env"; cases "getRepoMapJSON env")
     (simp_all add: run_simps perform_def Let_def)

text \<open>
  C8: for every non-empty list of workspace folders, \<^verbatim>\<open>buildIndex\<close> sorts the paths and takes
  the first path of the sorted list as the project root. That path is the least path of
  the set of folders, so two lists with the same folders give the same root; it is the
  root of every build call that \<^verbatim>\<open>buildIndex\<close> makes of the client, and the call is made
  whenever the collection of the files succeeds.
\<close>

theorem buildIndex_project_root:
  assumes "workspaceFolders env = Some folders" and "folders \<noteq> []"
  shows "fst (buildIndex_begin (now_at_start env) cfg (workspaceFolders env) w) =
           AwaitCollect (now_at_start env) cfg (sort folders) (hd (sort folders)) \<and>
         hd (sort folders) = Min (set folders) \<and>
         (\<forall>folders'. set folders' = set folders \<longrightarrow> hd (sort folders') = hd (sort folders)) \<and>
         (\<exists>new. trace (snd (buildIndex env cfg w)) = trace w @ new \<and>
            (\<forall>r root config. LspBuildIndex r root config \<in> set new \<longrightarrow>
               root = hd (sort folders)) \<and>
            (\<forall>files. collectFilesForIndex env = Inr files \<longrightarrow>
               LspBuildIndex (map fsPath files) (hd (sort folders))
                 (if isVectorIndexEnabled cfg then ''all'' else ''default'') \<in> set new))"
proof -
  have "\<forall>folders'. set folders' = set folders \<longrightarrow> hd (sort folders') = hd (sort folders)"
  proof (intro allI impI)
    fix folders' :: "string list"
    assume eq: "set folders' = set folders"
    with assms(2) have "folders' \<noteq> []" by auto
    then have "hd (sort folders') = Min (set folders')" by (rule hd_sort_Min)
    with eq show "hd (sort folders') = hd (sort folders)"
      by (simp add: hd_sort_Min [OF assms(2)])
  qed
  then show ?thesis
    using assms build_call [OF assms, of cfg w]
    by (simp add: begin_nonempty hd_sort_Min)
qed

text \<open>With the roots \<^verbatim>\<open>["/b", "/a"]\<close> the project root of the build call is \<^verbatim>\<open>/a\<close>.\<close>

theorem buildIndex_project_root_witness:
  "LspBuildIndex [''/a/x.ts''] ''/a'' ''all'' \<in> set (trace (snd (buildIndex
      \<lparr> workspaceFolders = Some [''/b'', ''/a''],
        collectFilesForIndex = Inr [\<lparr> fsPath = ''/a/x.ts'', fileSizeBytes = 10 \<rparr>],
        lsp_buildIndex = Inr True, getLspServerUsage = Inr None,
        getRepoMapJSON = Inr ''/tmp/repomap.json'',
        now_at_start = 0, now_at_emit = 5 \<rparr>
      \<lparr> startUrl = None, maxIndexSize = 1, isVectorIndexEnabled = True \<rparr>
      \<lparr> isIndexingInProgress = False, trace = [] \<rparr>)))"
  using buildIndex_project_root [of
      "\<lparr> workspaceFolders = Some [''/b'', ''/a''],
        collectFilesForIndex = Inr [\<lparr> fsPath = ''/a/x.ts'', fileSizeBytes = 10 \<rparr>],
        lsp_buildIndex = Inr True, getLspServerUsage = Inr None,
        getRepoMapJSON = Inr ''/tmp/repomap.json'',
        now_at_start = 0, now_at_emit = 5 \<rparr>"
      "[''/b'', ''/a'']"
      "\<lparr> startUrl = None, maxIndexSize = 1, isVectorIndexEnabled = True \<rparr>"
      "\<lparr> isIndexingInProgress = False, trace = [] \<rparr>"]
  by auto

section \<open>Calls of buildIndex that overlap\<close>

lemma length_filter_update:
  "i < length xs \<Longrightarrow>
   length (filter P (xs[i := y])) + (if P (xs ! i) then 1 else 0) =
   length (filter P xs) + (if P y then 1 else 0)"
proof (induction xs arbitrary: i)
  case Nil
  then show ?case by simp
next
  case (Cons x xs)
  then show ?case by (cases i) auto
qed

lemma resume_cases:
  assumes "resume now t a w = Some (t', w')"
  shows "(in_try t \<and> in_try t' \<and> isIndexingInProgress w' = isIndexingInProgress w) \<or>
         (in_try t \<and> \<not> in_try t' \<and> \<not> isIndexingInProgress w') \<or>
         (\<not> in_try t \<and> \<not> in_try t' \<and> isIndexingInProgress w' = isIndexingInProgress w)"
  using assms
  by (cases t; cases a)
     (auto simp add: after_collect_def after_build_def after_usage_def
        after_repomap_def finally_block_def catch_block_def perform_def Let_def
        split: sum.splits if_splits)

lemma begin_cases:
  assumes "buildIndex_begin now cfg folders w = (t, w')"
  shows "(in_try t \<and> isIndexingInProgress w') \<or>
         (\<not> in_try t \<and> isIndexingInProgress w' = isIndexingInProgress w)"
  using assms
  by (auto simp add: buildIndex_begin_def perform_def Let_def split: if_splits option.splits)


lemma occur_checked_exclusive:
  assumes "exclusive s" and "occur_checked e s = Some s'"
  shows "exclusive s'"
proof (cases e)
  case (Invoke now cfg folders)
  with assms(2) have idle: "\<not> isIndexingInProgress (controller s)"
    by (simp split: if_splits)
  with assms(1) have none: "building s = []" by (simp add: exclusive_def)
  obtain t w where b: "buildIndex_begin now cfg folders (controller s) = (t, w)"
    by (cases "buildIndex_begin now cfg folders (controller s)")
  with assms(2) Invoke idle have s': "s' = \<lparr> controller = w, tasks = tasks s @ [t] \<rparr>"
    by simp
  from begin_cases [OF b] idle none show ?thesis
    by (auto simp add: exclusive_def building_def s')
next
  case (Resume i now a)
  with assms(2) have i: "i < length (tasks s)" by (simp split: if_splits)
  with assms(2) Resume obtain t w where
    r: "resume now (tasks s ! i) a (controller s) = Some (t, w)"
    and s': "s' = \<lparr> controller = w, tasks = (tasks s)[i := t] \<rparr>"
    by (auto split: option.splits)
  let ?n = "length (filter in_try (tasks s))"
  let ?n' = "length (filter in_try ((tasks s)[i := t]))"
  have count: "?n' + (if in_try (tasks s ! i) then 1 else 0) = ?n + (if in_try t then 1 else 0)"
    by (rule length_filter_update [OF i])
  have mem: "in_try (tasks s ! i) \<Longrightarrow> 0 < ?n"
    using i by (metis filter_empty_conv nth_mem length_greater_0_conv)
  from assms(1) have le: "?n \<le> 1"
    and flag: "isIndexingInProgress (controller s) \<longleftrightarrow> 0 < ?n"
    by (simp_all add: exclusive_def building_def)
  have goal: "exclusive s' \<longleftrightarrow> ?n' \<le> 1 \<and> (isIndexingInProgress w \<longleftrightarrow> 0 < ?n')"
    by (simp add: exclusive_def building_def s')
  from resume_cases [OF r] consider
      (stay) "in_try (tasks s ! i)" "in_try t"
        "isIndexingInProgress w = isIndexingInProgress (controller s)"
    | (leave) "in_try (tasks s ! i)" "\<not> in_try t" "\<not> isIndexingInProgress w"
    | (out) "\<not> in_try (tasks s ! i)" "\<not> in_try t"
        "isIndexingInProgress w = isIndexingInProgress (controller s)"
    by blast
  then show ?thesis
  proof cases
    case stay
    with count have "?n' = ?n" by simp
    with stay le flag show ?thesis by (simp add: goal)
  next
    case leave
    with count have "?n' + 1 = ?n" by simp
    with le have "?n' = 0" by arith
    with leave show ?thesis by (simp add: goal)
  next
    case out
    with count have "?n' = ?n" by simp
    with out le flag show ?thesis by (simp add: goal)
  qed
qed

lemma run_checked_exclusive:
  assumes "exclusive s" and "run_checked es s = Some s'"
  shows "exclusive s'"
  using assms
proof (induction es arbitrary: s)
  case Nil
  then show ?case by simp
next
  case (Cons e es)
  then obtain s1 where 1: "occur_checked e s = Some s1" and 2: "run_checked es s1 = Some s'"
    by (auto split: option.splits)
  from occur_checked_exclusive [OF Cons.prems(1) 1] have "exclusive s1" .
  with 2 show ?case by (rule Cons.IH [rotated])
qed


lemma begin_ignores_flag:
  "fst (buildIndex_begin now cfg folders (w\<lparr> isIndexingInProgress := True \<rparr>)) =
     fst (buildIndex_begin now cfg folders (w\<lparr> isIndexingInProgress := False \<rparr>)) \<and>
   trace (snd (buildIndex_begin now cfg folders (w\<lparr> isIndexingInProgress := True \<rparr>))) =
     trace (snd (buildIndex_begin now cfg folders (w\<lparr> isIndexingInProgress := False \<rparr>)))"
  by (simp add: buildIndex_begin_def perform_def Let_def)

lemmas sched_simps = buildIndex_begin_def after_collect_def after_build_def after_usage_def
  after_repomap_def finally_block_def catch_block_def perform_def string_of_nat.simps Let_def

text \<open>
  C1, as the code has it: \<^verbatim>\<open>buildIndex\<close> never reads the flag, so a call made while the flag
  is true begins exactly as a call made while it is false (the same suspension, the same
  effects); it is neither rejected nor serialized. The builds are kept apart by the
  callers: in every schedule in which each call is made only when \<^verbatim>\<open>isIndexingInProgress()\<close>
  returns false, at most one call is inside its \<^verbatim>\<open>try\<close> block at any time, and the flag is
  true exactly when one is.
\<close>

theorem buildIndex_exclusion_by_callers:
  assumes "run_checked es idle = Some s"
  shows "length (building s) \<le> 1 \<and>
         (isIndexingInProgress (controller s) \<longleftrightarrow> building s \<noteq> []) \<and>
         fst (buildIndex_begin now cfg folders (w\<lparr> isIndexingInProgress := True \<rparr>)) =
           fst (buildIndex_begin now cfg folders (w\<lparr> isIndexingInProgress := False \<rparr>)) \<and>
         trace (snd (buildIndex_begin now cfg folders (w\<lparr> isIndexingInProgress := True \<rparr>))) =
           trace (snd (buildIndex_begin now cfg folders (w\<lparr> isIndexingInProgress := False \<rparr>)))"
proof -
  have "exclusive idle" by (simp add: exclusive_def building_def idle_def)
  then have "exclusive s" using assms by (rule run_checked_exclusive)
  then show ?thesis using begin_ignores_flag [of now cfg folders w]
    by (simp add: exclusive_def)
qed

text \<open>
  An instance: a call whose build fails in the child, and then, the flag being false
  again, a second call while the first still waits for the repository map.
\<close>

theorem buildIndex_exclusion_by_callers_witness:
  "run_checked
     [Invoke 0 \<lparr> startUrl = None, maxIndexSize = 1, isVectorIndexEnabled = True \<rparr>
        (Some [''/a'']),
      Resume 0 2 (Files (Inl (Error ''RangeError'' ''too deep''))),
      Invoke 3 \<lparr> startUrl = None, maxIndexSize = 1, isVectorIndexEnabled = False \<rparr>
        (Some [''/a''])] idle =
   Some \<lparr> controller =
           \<lparr> isIndexingInProgress = True,
             trace =
               [Log LogInfo ''LspController: Starting to build index of project'',
                CollectFilesForIndex [''/a''] [''/a''] True 1048576,
                Log LogError ''LspController: Failed to build index of project'',
                Emit \<lparr> duration = 2, result = Failed, amazonqIndexFileCount = 0,
                       amazonqIndexMemoryUsageInMB = None,
                       amazonqIndexCpuUsagePercentage = None,
                       amazonqIndexFileSizeInMB = 0, credentialStartUrl = None,
                       reason = Some ''RangeError'',
                       reasonDesc = Some ''Error when building index. too deep'' \<rparr>,
                GetRepoMapJSON,
                Log LogInfo ''LspController: Starting to build index of project'',
                CollectFilesForIndex [''/a''] [''/a''] True 1048576] \<rparr>,
          tasks =
            [AwaitRepoMap,
             AwaitCollect 3
               \<lparr> startUrl = None, maxIndexSize = 1, isVectorIndexEnabled = False \<rparr>
               [''/a''] ''/a''] \<rparr> \<and>
   length (building \<lparr> controller =
           \<lparr> isIndexingInProgress = True,
             trace =
               [Log LogInfo ''LspController: Starting to build index of project'',
                CollectFilesForIndex [''/a''] [''/a''] True 1048576,
                Log LogError ''LspController: Failed to build index of project'',
                Emit \<lparr> duration = 2, result = Failed, amazonqIndexFileCount = 0,
                       amazonqIndexMemoryUsageInMB = None,
                       amazonqIndexCpuUsagePercentage = None,
                       amazonqIndexFileSizeInMB = 0, credentialStartUrl = None,
                       reason = Some ''RangeError'',
                       reasonDesc = Some ''Error when building index. too deep'' \<rparr>,
                GetRepoMapJSON,
                Log LogInfo ''LspController: Starting to build index of project'',
                CollectFilesForIndex [''/a''] [''/a''] True 1048576] \<rparr>,
          tasks =
            [AwaitRepoMap,
             AwaitCollect 3
               \<lparr> startUrl = None, maxIndexSize = 1, isVectorIndexEnabled = False \<rparr>
               [''/a''] ''/a''] \<rparr>) \<le> 1"
proof -
  have r: "run_checked
     [Invoke 0 \<lparr> startUrl = None, maxIndexSize = 1, isVectorIndexEnabled = True \<rparr>
        (Some [''/a'']),
      Resume 0 2 (Files (Inl (Error ''RangeError'' ''too deep''))),
      Invoke 3 \<lparr> startUrl = None, maxIndexSize = 1, isVectorIndexEnabled = False \<rparr>
        (Some [''/a''])] idle =
   Some \<lparr> controller =
           \<lparr> isIndexingInProgress = True,
             trace =
               [Log LogInfo ''LspController: Starting to build index of project'',
                CollectFilesForIndex [''/a''] [''/a''] True 1048576,
                Log LogError ''LspController: Failed to build index of project'',
                Emit \<lparr> duration = 2, result = Failed, amazonqIndexFileCount = 0,
                       amazonqIndexMemoryUsageInMB = None,
                       amazonqIndexCpuUsagePercentage = None,
                       amazonqIndexFileSizeInMB = 0, credentialStartUrl = None,
                       reason = Some ''RangeError'',
                       reasonDesc = Some ''Error when building index. too deep'' \<rparr>,
                GetRepoMapJSON,
                Log LogInfo ''LspController: Starting to build index of project'',
                CollectFilesForIndex [''/a''] [''/a''] True 1048576] \<rparr>,
          tasks =
            [AwaitRepoMap,
             AwaitCollect 3
               \<lparr> startUrl = None, maxIndexSize = 1, isVectorIndexEnabled = False \<rparr>
               [''/a''] ''/a''] \<rparr>"
    by (simp add: idle_def sched_simps)
  from buildIndex_exclusion_by_callers [OF r] r show ?thesis by simp
qed

text \<open>
  C1 as stated fails. The second call below is made while the flag is true (the first
  line); it is not rejected, and both calls run to their end with their requests to the
  collector and to the client interleaved (the second line). The build call of the second
  is made while that of the first is pending.
\<close>

theorem buildIndex_interleaves_counterexample:
  "run
     [Invoke 0 \<lparr> startUrl = None, maxIndexSize = 1, isVectorIndexEnabled = True \<rparr>
        (Some [''/a''])] idle =
   Some \<lparr> controller =
           \<lparr> isIndexingInProgress = True,
             trace =
               [Log LogInfo ''LspController: Starting to build index of project'',
                CollectFilesForIndex [''/a''] [''/a''] True 1048576] \<rparr>,
          tasks =
            [AwaitCollect 0
               \<lparr> startUrl = None, maxIndexSize = 1, isVectorIndexEnabled = True \<rparr>
               [''/a''] ''/a''] \<rparr> \<and>
   run
     [Invoke 0 \<lparr> startUrl = None, maxIndexSize = 1, isVectorIndexEnabled = True \<rparr>
        (Some [''/a'']),
      Invoke 1 \<lparr> startUrl = None, maxIndexSize = 1, isVectorIndexEnabled = False \<rparr>
        (Some [''/a'']),
      Resume 0 2 (Files (Inr [\<lparr> fsPath = ''/a/x.ts'', fileSizeBytes = 1048576 \<rparr>])),
      Resume 1 3 (Files (Inr [\<lparr> fsPath = ''/a/y.ts'', fileSizeBytes = 2097152 \<rparr>])),
      Resume 0 4 (Built (Inr True)),
      Resume 1 5 (Built (Inr True)),
      Resume 0 6 (Usage (Inr None)),
      Resume 1 7 (Usage (Inr None)),
      Resume 0 8 (RepoMap (Inr ''/tmp/repomap.json'')),
      Resume 1 9 (RepoMap (Inr ''/tmp/repomap.json''))] idle =
   Some \<lparr> controller =
           \<lparr> isIndexingInProgress = False,
             trace =
               [Log LogInfo ''LspController: Starting to build index of project'',
                CollectFilesForIndex [''/a''] [''/a''] True 1048576,
                Log LogInfo ''LspController: Starting to build index of project'',
                CollectFilesForIndex [''/a''] [''/a''] True 1048576,
                Log LogInfo ''LspController: Found 1 files in current project /a'',
                LspBuildIndex [''/a/x.ts''] ''/a'' ''all'',
                Log LogInfo ''LspController: Found 1 files in current project /a'',
                LspBuildIndex [''/a/y.ts''] ''/a'' ''default'',
                Log LogDebug ''LspController: Finish building index of project'',
                GetLspServerUsage,
                Log LogDebug ''LspController: Finish building index of project'',
                GetLspServerUsage,
                Emit \<lparr> duration = 6, result = Succeeded, amazonqIndexFileCount = 1,
                       amazonqIndexMemoryUsageInMB = None,
                       amazonqIndexCpuUsagePercentage = None,
                       amazonqIndexFileSizeInMB = 1, credentialStartUrl = None,
                       reason = None, reasonDesc = None \<rparr>,
                GetRepoMapJSON,
                Emit \<lparr> duration = 6, result = Succeeded, amazonqIndexFileCount = 1,
                       amazonqIndexMemoryUsageInMB = None,
                       amazonqIndexCpuUsagePercentage = None,
                       amazonqIndexFileSizeInMB = 2, credentialStartUrl = None,
                       reason = None, reasonDesc = None \<rparr>,
                GetRepoMapJSON,
                Log LogInfo ''File path /tmp/repomap.json'',
                Log LogInfo ''File path /tmp/repomap.json''] \<rparr>,
          tasks = [Settled Resolved, Settled Resolved] \<rparr>"
  by (simp add: idle_def sched_simps)

section \<open>The flag\<close>

lemma single_call_flag:
  assumes "workspaceFolders env = Some folders" and "folders \<noteq> []"
  shows "in_try (fst (buildIndex_begin (now_at_start env) cfg (workspaceFolders env) w)) \<and>
         (\<forall>tw \<in> set (drive env (buildIndex_begin (now_at_start env) cfg
                                  (workspaceFolders env) w)).
            isIndexingInProgress (snd tw) = in_try (fst tw)) \<and>
         settled (fst (buildIndex env cfg w)) \<and>
         \<not> isIndexingInProgress (snd (buildIndex env cfg w))"
proof -
  let ?b = "buildIndex_begin (now_at_start env) cfg (workspaceFolders env) w"
  have b: "in_try (fst ?b)" "isIndexingInProgress (snd ?b) = in_try (fst ?b)"
    using assms by (simp_all add: begin_nonempty perform_def)
  have inv: "\<forall>tw \<in> set (drive env ?b). isIndexingInProgress (snd tw) = in_try (fst tw)"
    by (rule drive_invariant [where P = "\<lambda>tw. isIndexingInProgress (snd tw) = in_try (fst tw)"])
       (simp_all add: b step_flag)
  have s: "settled (fst (buildIndex env cfg w))"
    by (simp add: buildIndex_def last_drive_settled)
  have "buildIndex env cfg w \<in> set (drive env ?b)"
    by (simp add: buildIndex_def drive_not_Nil)
  with inv have "isIndexingInProgress (snd (buildIndex env cfg w)) =
      in_try (fst (buildIndex env cfg w))"
    by blast
  moreover from s have "\<not> in_try (fst (buildIndex env cfg w))"
    by (cases "fst (buildIndex env cfg w)") simp_all
  ultimately show ?thesis using b inv s by simp
qed


lemma occur_flag_held:
  assumes "isIndexingInProgress (controller s) \<longrightarrow> building s \<noteq> []"
    and "occur e s = Some s'"
  shows "isIndexingInProgress (controller s') \<longrightarrow> building s' \<noteq> []"
proof (cases e)
  case (Invoke now cfg folders)
  obtain t w where b: "buildIndex_begin now cfg folders (controller s) = (t, w)"
    by (cases "buildIndex_begin now cfg folders (controller s)")
  with assms(2) Invoke have s': "s' = \<lparr> controller = w, tasks = tasks s @ [t] \<rparr>"
    by simp
  from begin_cases [OF b] assms(1) show ?thesis
    by (auto simp add: building_def s')
next
  case (Resume i now a)
  with assms(2) have i: "i < length (tasks s)" by (simp split: if_splits)
  with assms(2) Resume obtain t w where
    r: "resume now (tasks s ! i) a (controller s) = Some (t, w)"
    and s': "s' = \<lparr> controller = w, tasks = (tasks s)[i := t] \<rparr>"
    by (auto split: option.splits)
  let ?n = "length (filter in_try (tasks s))"
  let ?n' = "length (filter in_try ((tasks s)[i := t]))"
  have count: "?n' + (if in_try (tasks s ! i) then 1 else 0) = ?n + (if in_try t then 1 else 0)"
    by (rule length_filter_update [OF i])
  from assms(1) have flag: "isIndexingInProgress (controller s) \<longrightarrow> 0 < ?n"
    by (simp add: building_def)
  have goal: "(isIndexingInProgress (controller s') \<longrightarrow> building s' \<noteq> []) \<longleftrightarrow>
      (isIndexingInProgress w \<longrightarrow> 0 < ?n')"
    by (simp add: building_def s')
  from resume_cases [OF r] consider
      (stay) "in_try (tasks s ! i)" "in_try t"
    | (leave) "\<not> isIndexingInProgress w"
    | (out) "\<not> in_try (tasks s ! i)" "\<not> in_try t"
        "isIndexingInProgress w = isIndexingInProgress (controller s)"
    by blast
  then show ?thesis
  proof cases
    case stay
    from i have "t \<in> set ((tasks s)[i := t])" by (rule set_update_memI)
    with stay have "filter in_try ((tasks s)[i := t]) \<noteq> []"
      by (metis filter_empty_conv)
    then show ?thesis by (simp add: goal)
  next
    case leave
    then show ?thesis by (simp add: goal)
  next
    case out
    with count have "?n' = ?n" by simp
    with out flag show ?thesis by (simp add: goal)
  qed
qed

lemma run_flag_held:
  assumes "isIndexingInProgress (controller s) \<longrightarrow> building s \<noteq> []"
    and "run es s = Some s'"
  shows "isIndexingInProgress (controller s') \<longrightarrow> building s' \<noteq> []"
  using assms
proof (induction es arbitrary: s)
  case Nil
  then show ?case by simp
next
  case (Cons e es)
  then obtain s1 where 1: "occur e s = Some s1" and 2: "run es s1 = Some s'"
    by (auto split: option.splits)
  from occur_flag_held [OF Cons.prems(1) 1]
  have "isIndexingInProgress (controller s1) \<longrightarrow> building s1 \<noteq> []" .
  with 2 show ?case by (rule Cons.IH [rotated])
qed

lemma occur_apart_checked: "exclusive s \<Longrightarrow> occur_apart e s = occur_checked e s"
  by (cases e) (simp_all add: exclusive_def)

lemma run_apart_exclusive:
  assumes "exclusive s" and "run_apart es s = Some s'"
  shows "exclusive s'"
  using assms
proof (induction es arbitrary: s)
  case Nil
  then show ?case by simp
next
  case (Cons e es)
  then obtain s1 where 1: "occur_apart e s = Some s1" and 2: "run_apart es s1 = Some s'"
    by (auto split: option.splits)
  from 1 Cons.prems(1) have "occur_checked e s = Some s1"
    by (simp add: occur_apart_checked)
  with Cons.prems(1) have "exclusive s1" by (rule occur_checked_exclusive)
  with 2 show ?case by (rule Cons.IH [rotated])
qed

text \<open>
  C2, as the code has it: for every call of \<^verbatim>\<open>buildIndex\<close> with a non-empty list of
  workspace folders whose build overlaps no other, the flag is true for the duration of
  the build and false afterwards, whatever the awaits yield. For a call that runs on its
  own: the flag is true at the first await and at every later await of the \<^verbatim>\<open>try\<close> block
  (it is true at a suspension exactly when the task is inside the block), the call
  settles, and the flag is false when it has settled. In every schedule in which no call
  is made while another is inside its \<^verbatim>\<open>try\<close> block, the flag is true exactly when a call is
  inside its \<^verbatim>\<open>try\<close> block. And in every schedule whatever, overlapping calls included, the
  flag is not left true: whenever it is true, some call is inside its \<^verbatim>\<open>try\<close> block.
\<close>

theorem buildIndex_flag:
  assumes "workspaceFolders env = Some folders" and "folders \<noteq> []"
    and "run es idle = Some s"
    and "run_apart es' idle = Some s'"
  shows "in_try (fst (buildIndex_begin (now_at_start env) cfg (workspaceFolders env) w)) \<and>
         (\<forall>tw \<in> set (drive env (buildIndex_begin (now_at_start env) cfg
                                  (workspaceFolders env) w)).
            isIndexingInProgress (snd tw) = in_try (fst tw)) \<and>
         settled (fst (buildIndex env cfg w)) \<and>
         \<not> isIndexingInProgress (snd (buildIndex env cfg w)) \<and>
         (isIndexingInProgress (controller s) \<longrightarrow> building s \<noteq> []) \<and>
         (isIndexingInProgress (controller s') \<longleftrightarrow> building s' \<noteq> []) \<and>
         length (building s') \<le> 1"
proof -
  have "isIndexingInProgress (controller idle) \<longrightarrow> building idle \<noteq> []"
    by (simp add: idle_def)
  then have held: "isIndexingInProgress (controller s) \<longrightarrow> building s \<noteq> []"
    using assms(3) by (rule run_flag_held)
  have "exclusive idle" by (simp add: exclusive_def building_def idle_def)
  then have "exclusive s'" using assms(4) by (rule run_apart_exclusive)
  then have apart: "isIndexingInProgress (controller s') \<longleftrightarrow> building s' \<noteq> []"
    and one: "length (building s') \<le> 1"
    by (simp_all add: exclusive_def)
  from single_call_flag [OF assms(1,2), of cfg w] held apart one show ?thesis by simp
qed

text \<open>
  An instance: two folders, the collection throws, and so does the retrieval of the
  repository map at the end; the call settles and the flag is false. In the schedule
  of one call that has begun, the flag is true and the call is inside its \<^verbatim>\<open>try\<close> block.
\<close>

theorem buildIndex_flag_witness:
  "settled (fst (buildIndex
      \<lparr> workspaceFolders = Some [''/b'', ''/a''],
        collectFilesForIndex = Inl (Error ''RangeError'' ''too deep''),
        lsp_buildIndex = Inr True, getLspServerUsage = Inr None,
        getRepoMapJSON = Inl (NonError ''closed''),
        now_at_start = 0, now_at_emit = 5 \<rparr>
      \<lparr> startUrl = None, maxIndexSize = 1, isVectorIndexEnabled = True \<rparr>
      \<lparr> isIndexingInProgress = False, trace = [] \<rparr>)) \<and>
   \<not> isIndexingInProgress (snd (buildIndex
      \<lparr> workspaceFolders = Some [''/b'', ''/a''],
        collectFilesForIndex = Inl (Error ''RangeError'' ''too deep''),
        lsp_buildIndex = Inr True, getLspServerUsage = Inr None,
        getRepoMapJSON = Inl (NonError ''closed''),
        now_at_start = 0, now_at_emit = 5 \<rparr>
      \<lparr> startUrl = None, maxIndexSize = 1, isVectorIndexEnabled = True \<rparr>
      \<lparr> isIndexingInProgress = False, trace = [] \<rparr>)) \<and>
   building
     \<lparr> controller =
         \<lparr> isIndexingInProgress = True,
           trace =
             [Log LogInfo ''LspController: Starting to build index of project'',
              CollectFilesForIndex [''/a'', ''/b''] [''/b'', ''/a''] True 1048576] \<rparr>,
       tasks =
         [AwaitCollect 0
            \<lparr> startUrl = None, maxIndexSize = 1, isVectorIndexEnabled = True \<rparr>
            [''/a'', ''/b''] ''/a''] \<rparr> \<noteq> [] \<and>
   length (building
     \<lparr> controller =
         \<lparr> isIndexingInProgress = True,
           trace =
             [Log LogInfo ''LspController: Starting to build index of project'',
              CollectFilesForIndex [''/a'', ''/b''] [''/b'', ''/a''] True 1048576] \<rparr>,
       tasks =
         [AwaitCollect 0
            \<lparr> startUrl = None, maxIndexSize = 1, isVectorIndexEnabled = True \<rparr>
            [''/a'', ''/b''] ''/a''] \<rparr>) \<le> 1"
proof -
  have r: "run
     [Invoke 0 \<lparr> startUrl = None, maxIndexSize = 1, isVectorIndexEnabled = True \<rparr>
        (Some [''/b'', ''/a''])] idle =
     Some \<lparr> controller =
         \<lparr> isIndexingInProgress = True,
           trace =
             [Log LogInfo ''LspController: Starting to build index of project'',
              CollectFilesForIndex [''/a'', ''/b''] [''/b'', ''/a''] True 1048576] \<rparr>,
       tasks =
         [AwaitCollect 0
            \<lparr> startUrl = None, maxIndexSize = 1, isVectorIndexEnabled = True \<rparr>
            [''/a'', ''/b''] ''/a''] \<rparr>"
    by (simp add: idle_def sched_simps)
  have a: "run_apart
     [Invoke 0 \<lparr> startUrl = None, maxIndexSize = 1, isVectorIndexEnabled = True \<rparr>
        (Some [''/b'', ''/a''])] idle =
     Some \<lparr> controller =
         \<lparr> isIndexingInProgress = True,
           trace =
             [Log LogInfo ''LspController: Starting to build index of project'',
              CollectFilesForIndex [''/a'', ''/b''] [''/b'', ''/a''] True 1048576] \<rparr>,
       tasks =
         [AwaitCollect 0
            \<lparr> startUrl = None, maxIndexSize = 1, isVectorIndexEnabled = True \<rparr>
            [''/a'', ''/b''] ''/a''] \<rparr>"
    by (simp add: idle_def building_def sched_simps)
  have f: "workspaceFolders
      \<lparr> workspaceFolders = Some [''/b'', ''/a''],
        collectFilesForIndex = Inl (Error ''RangeError'' ''too deep''),
        lsp_buildIndex = Inr True, getLspServerUsage = Inr None,
        getRepoMapJSON = Inl (NonError ''closed''),
        now_at_start = 0, now_at_emit = 5 \<rparr> = Some [''/b'', ''/a'']"
    by simp
  have n: "[''/b'', ''/a''] \<noteq> []" by simp
  from buildIndex_flag [OF f n r a,
      of "\<lparr> startUrl = None, maxIndexSize = 1, isVectorIndexEnabled = True \<rparr>"
         "\<lparr> isIndexingInProgress = False, trace = [] \<rparr>"]
  show ?thesis by simp
qed

text \<open>
  C2 as stated fails where two calls overlap. Both calls below have begun, and the flag
  is true; the collection of the first then throws, and its \<^verbatim>\<open>finally\<close> block clears the
  flag while the second call is still inside its \<^verbatim>\<open>try\<close> block, waiting for its own
  collection: the flag is false during the build of the second call.
\<close>

theorem buildIndex_flag_overlap_counterexample:
  "run
     [Invoke 0 \<lparr> startUrl = None, maxIndexSize = 1, isVectorIndexEnabled = True \<rparr>
        (Some [''/a'']),
      Invoke 1 \<lparr> startUrl = None, maxIndexSize = 1, isVectorIndexEnabled = False \<rparr>
        (Some [''/a'']),
      Resume 0 2 (Files (Inl (Error ''RangeError'' ''too deep'')))] idle =
   Some \<lparr> controller =
           \<lparr> isIndexingInProgress = False,
             trace =
               [Log LogInfo ''LspController: Starting to build index of project'',
                CollectFilesForIndex [''/a''] [''/a''] True 1048576,
                Log LogInfo ''LspController: Starting to build index of project'',
                CollectFilesForIndex [''/a''] [''/a''] True 1048576,
                Log LogError ''LspController: Failed to build index of project'',
                Emit \<lparr> duration = 2, result = Failed, amazonqIndexFileCount = 0,
                       amazonqIndexMemoryUsageInMB = None,
                       amazonqIndexCpuUsagePercentage = None,
                       amazonqIndexFileSizeInMB = 0, credentialStartUrl = None,
                       reason = Some ''RangeError'',
                       reasonDesc = Some ''Error when building index. too deep'' \<rparr>,
                GetRepoMapJSON] \<rparr>,
          tasks =
            [AwaitRepoMap,
             AwaitCollect 1
               \<lparr> startUrl = None, maxIndexSize = 1, isVectorIndexEnabled = False \<rparr>
               [''/a''] ''/a''] \<rparr> \<and>
   in_try (AwaitCollect 1
             \<lparr> startUrl = None, maxIndexSize = 1, isVectorIndexEnabled = False \<rparr>
             [''/a''] ''/a'')"
  by (simp add: idle_def sched_simps)

section \<open>Properties of install and cleanup\<close>

lemma remove_folder_insert:
  "remove_folder folder (insert p d) =
     (if inside folder p then remove_folder folder d else insert p (remove_folder folder d))"
  by (auto simp add: remove_folder_def)

lemma remove_folder_empty: "remove_folder folder {} = {}"
  by (simp add: remove_folder_def)

lemmas host_simps = fs_exists_def tryRemoveFolder_def fs_delete_path_def journal_op_def
  fs_delete_def inside_def Let_def remove_folder_insert remove_folder_empty

text \<open>
  \<^verbatim>\<open>install\<close> where the manifest has both entries and nothing throws: the server and the
  runtime are on the disk afterwards, and the temporary folder is not.
\<close>

lemma install_example:
  "install
     \<lparr> getDependency = (\<lambda>manifest entry. if entry \<in> set manifest then Some entry else None),
       makeTemporaryToolkitFolder = (\<lambda>d. (Inr ''/tmp/aws-toolkit-1'', insert ''/tmp/aws-toolkit-1'' d)),
       downloadAndExtractServer =
         (\<lambda>content installLocation entry tempFolder extractToTempFolder d.
            (Inr True, insert installLocation (insert (tempFolder @ ''/qserver.zip'') d))),
       installRuntime =
         (\<lambda>content installLocation tempPath d. (Inr True, insert installLocation d)) \<rparr>
     \<lparr> serverPath = ''/ext/resources/qserver'', nodePath = ''/ext/resources/node'',
       platform = ''linux'', arch = ''x64'' \<rparr>
     [''qserver'', ''node'']
     \<lparr> disk = {''/ext/package.json''}, journal = [] \<rparr> =
   (Inr True,
    \<lparr> disk = {''/ext/resources/node'', ''/ext/resources/qserver'', ''/ext/package.json''},
      journal =
        [MakeTemporaryToolkitFolder,
         DownloadAndExtractServer ''/ext/resources/qserver'' ''qserver''
           ''/tmp/aws-toolkit-1'' True,
         InstallRuntime ''/ext/resources/node'' ''/tmp/aws-toolkit-1/node'',
         TryRemoveFolder ''/tmp/aws-toolkit-1''] \<rparr>)"
  by (simp add: install_def install_finally_def path_join_def nodeBinName_def host_simps)

text \<open>
  C4: for every manifest in which the entry of the server (\<^verbatim>\<open>qserver\<close>) or that of the
  runtime (\<^verbatim>\<open>node\<close>) is absent, \<^verbatim>\<open>install\<close> returns false, the disk is as it was, and the only
  thing done is the line written to the log: no temporary folder is made and nothing is
  downloaded.
\<close>

theorem install_unavailable:
  assumes "getDependency this_downloader manifest ''qserver'' = None \<or>
           getDependency this_downloader manifest ''node'' = None"
  shows "fst (install this_downloader this manifest h) = Inr False \<and>
         disk (snd (install this_downloader this manifest h)) = disk h \<and>
         journal (snd (install this_downloader this manifest h)) =
           journal h @
           [HostLog LogInfo (''Did not find LSP URL for '' @ platform this @ '' '' @ arch this)]"
  using assms by (auto simp add: install_def journal_op_def split: option.splits)

text \<open>An instance: the manifest has the server and lacks the runtime.\<close>

theorem install_unavailable_witness:
  "install
     \<lparr> getDependency = (\<lambda>manifest entry. if entry \<in> set manifest then Some entry else None),
       makeTemporaryToolkitFolder = (\<lambda>d. (Inr ''/tmp/aws-toolkit-1'', insert ''/tmp/aws-toolkit-1'' d)),
       downloadAndExtractServer =
         (\<lambda>content installLocation entry tempFolder extractToTempFolder d.
            (Inr True, insert installLocation (insert (tempFolder @ ''/qserver.zip'') d))),
       installRuntime =
         (\<lambda>content installLocation tempPath d. (Inr True, insert installLocation d)) \<rparr>
     \<lparr> serverPath = ''/ext/resources/qserver'', nodePath = ''/ext/resources/node'',
       platform = ''linux'', arch = ''x64'' \<rparr>
     [''qserver'']
     \<lparr> disk = {''/ext/package.json''}, journal = [] \<rparr> =
   (Inr False,
    \<lparr> disk = {''/ext/package.json''},
      journal = [HostLog LogInfo ''Did not find LSP URL for linux x64''] \<rparr>)"
  using install_unavailable [of
     "\<lparr> getDependency = (\<lambda>manifest entry. if entry \<in> set manifest then Some entry else None),
       makeTemporaryToolkitFolder = (\<lambda>d. (Inr ''/tmp/aws-toolkit-1'', insert ''/tmp/aws-toolkit-1'' d)),
       downloadAndExtractServer =
         (\<lambda>content installLocation entry tempFolder extractToTempFolder d.
            (Inr True, insert installLocation (insert (tempFolder @ ''/qserver.zip'') d))),
       installRuntime =
         (\<lambda>content installLocation tempPath d. (Inr True, insert installLocation d)) \<rparr>"
     "[''qserver'']"
     "\<lparr> serverPath = ''/ext/resources/qserver'', nodePath = ''/ext/resources/node'',
       platform = ''linux'', arch = ''x64'' \<rparr>"
     "\<lparr> disk = {''/ext/package.json''}, journal = [] \<rparr>"]
  by (simp add: prod_eq_iff)

lemma cleanup_uninstalls: "\<not> isLspInstalled this (snd (cleanup this h))"
  by (auto simp add: isLspInstalled_def cleanup_def fs_exists_def tryRemoveFolder_def
        fs_delete_path_def journal_op_def remove_folder_def fs_delete_def inside_def Let_def)

text \<open>
  C9: \<^verbatim>\<open>cleanup\<close> is idempotent. For every disk it returns true and leaves neither the server
  path nor the node path on the disk; called again, it finds both absent, removes nothing
  (the disk and the journal stay as they are) and returns true; and where nothing is
  installed the first call already does nothing and returns true.
\<close>

theorem cleanup_idempotent:
  "fst (cleanup this h) = True \<and>
   \<not> fs_exists (serverPath this) (disk (snd (cleanup this h))) \<and>
   \<not> fs_exists (nodePath this) (disk (snd (cleanup this h))) \<and>
   cleanup this (snd (cleanup this h)) = (True, snd (cleanup this h)) \<and>
   (\<not> fs_exists (serverPath this) (disk h) \<and> \<not> fs_exists (nodePath this) (disk h)
      \<longrightarrow> cleanup this h = (True, h))"
  by (auto simp add: cleanup_def fs_exists_def tryRemoveFolder_def fs_delete_path_def
        journal_op_def remove_folder_def fs_delete_def inside_def Let_def)

text \<open>
  An instance: with nothing installed \<^verbatim>\<open>cleanup\<close> changes nothing, and after the cleanup of an
  installation a second call changes nothing.
\<close>

theorem cleanup_idempotent_witness:
  "cleanup
     \<lparr> serverPath = ''/ext/resources/qserver'', nodePath = ''/ext/resources/node'',
       platform = ''linux'', arch = ''x64'' \<rparr>
     \<lparr> disk = {''/ext/package.json''}, journal = [] \<rparr> =
   (True, \<lparr> disk = {''/ext/package.json''}, journal = [] \<rparr>) \<and>
   cleanup
     \<lparr> serverPath = ''/ext/resources/qserver'', nodePath = ''/ext/resources/node'',
       platform = ''linux'', arch = ''x64'' \<rparr>
     (snd (cleanup
        \<lparr> serverPath = ''/ext/resources/qserver'', nodePath = ''/ext/resources/node'',
          platform = ''linux'', arch = ''x64'' \<rparr>
        \<lparr> disk = {''/ext/resources/qserver'', ''/ext/resources/qserver/lspServer.js'',
                   ''/ext/resources/node'', ''/ext/package.json''},
          journal = [] \<rparr>)) =
   (True,
    \<lparr> disk = {''/ext/package.json''},
      journal = [TryRemoveFolder ''/ext/resources/qserver'',
                 FsDelete ''/ext/resources/node''] \<rparr>)"
proof -
  have after: "snd (cleanup
        \<lparr> serverPath = ''/ext/resources/qserver'', nodePath = ''/ext/resources/node'',
          platform = ''linux'', arch = ''x64'' \<rparr>
        \<lparr> disk = {''/ext/resources/qserver'', ''/ext/resources/qserver/lspServer.js'',
                   ''/ext/resources/node'', ''/ext/package.json''},
          journal = [] \<rparr>) =
      \<lparr> disk = {''/ext/package.json''},
        journal = [TryRemoveFolder ''/ext/resources/qserver'',
                   FsDelete ''/ext/resources/node''] \<rparr>"
    by (simp add: cleanup_def host_simps)
  show ?thesis
    using cleanup_idempotent [of
        "\<lparr> serverPath = ''/ext/resources/qserver'', nodePath = ''/ext/resources/node'',
          platform = ''linux'', arch = ''x64'' \<rparr>"
        "\<lparr> disk = {''/ext/package.json''}, journal = [] \<rparr>"]
      cleanup_idempotent [of
        "\<lparr> serverPath = ''/ext/resources/qserver'', nodePath = ''/ext/resources/node'',
          platform = ''linux'', arch = ''x64'' \<rparr>"
        "\<lparr> disk = {''/ext/resources/qserver'', ''/ext/resources/qserver/lspServer.js'',
                   ''/ext/resources/node'', ''/ext/package.json''},
          journal = [] \<rparr>"]
    by (simp add: after fs_exists_def)
qed

end
